theory Spec2Isabelle
  imports Complex_Main "HOL-Library.Word" "HOL-Library.Signed_Division"
begin

section \<open>The task set of \<^verbatim>\<open>ipsa_sched.c\<close>\<close>

text \<open>
  \<^verbatim>\<open>ipsa_sched.c\<close> creates one queue and five FreeRTOS tasks and starts the scheduler.
  Each task is an endless loop around a small piece of work and one \<^verbatim>\<open>vTaskDelay\<close>.
  The kernel (queue and task creation, the scheduler, the tick) and \<^verbatim>\<open>printf\<close> are
  not part of the file: a task is modelled by the sequence of calls it makes to them,
  and the registrar by the calls it makes and by what the kernel answers.
\<close>

subsection \<open>Kernel configuration and the macros of the file\<close>

text \<open>
  \<^verbatim>\<open>tskIDLE_PRIORITY\<close>, \<^verbatim>\<open>configMINIMAL_STACK_SIZE\<close> and \<^verbatim>\<open>portTICK_PERIOD_MS\<close> come from
  the kernel's headers, which the file only includes. They are parameters here.
\<close>

record config =
  tskIDLE_PRIORITY :: nat
  configMINIMAL_STACK_SIZE :: nat
  portTICK_PERIOD_MS :: nat

datatype fault = Signed_Overflow | Index_Out_Of_Bounds | Division_By_Zero

definition mainQUEUE_LENGTH :: nat where
  "mainQUEUE_LENGTH = 2"

definition sizeof_uint32_t :: nat where
  "sizeof_uint32_t = 4"

text \<open>
  The period macros divide a number of milliseconds by \<^verbatim>\<open>portTICK_PERIOD_MS\<close> in
  the unsigned type \<^verbatim>\<open>TickType_t\<close>. C leaves division by zero undefined; HOL's
  \<open>div\<close> would silently give 0, so the divisor is checked.
\<close>

definition ms_to_ticks :: "nat \<Rightarrow> nat \<Rightarrow> fault + nat" where
  "ms_to_ticks ms tick_ms = (if tick_ms = 0 then Inl Division_By_Zero else Inr (ms div tick_ms))"

definition TASK1_PERIOD_MS :: "config \<Rightarrow> fault + nat" where
  "TASK1_PERIOD_MS cfg = ms_to_ticks 166 (portTICK_PERIOD_MS cfg)"

definition TASK2_PERIOD_MS :: "config \<Rightarrow> fault + nat" where
  "TASK2_PERIOD_MS cfg = ms_to_ticks 170 (portTICK_PERIOD_MS cfg)"

definition TASK3_PERIOD_MS :: "config \<Rightarrow> fault + nat" where
  "TASK3_PERIOD_MS cfg = ms_to_ticks 186 (portTICK_PERIOD_MS cfg)"

definition TASK4_PERIOD_MS :: "config \<Rightarrow> fault + nat" where
  "TASK4_PERIOD_MS cfg = ms_to_ticks 166 (portTICK_PERIOD_MS cfg)"

definition APERIODIC_TASK_DELAY_MS :: "config \<Rightarrow> fault + nat" where
  "APERIODIC_TASK_DELAY_MS cfg = ms_to_ticks 50 (portTICK_PERIOD_MS cfg)"

definition TASK1_PRIORITY :: "config \<Rightarrow> nat" where
  "TASK1_PRIORITY cfg = tskIDLE_PRIORITY cfg + 1"

definition TASK2_PRIORITY :: "config \<Rightarrow> nat" where
  "TASK2_PRIORITY cfg = tskIDLE_PRIORITY cfg + 2"

definition TASK3_PRIORITY :: "config \<Rightarrow> nat" where
  "TASK3_PRIORITY cfg = tskIDLE_PRIORITY cfg + 3"

definition TASK4_PRIORITY :: "config \<Rightarrow> nat" where
  "TASK4_PRIORITY cfg = tskIDLE_PRIORITY cfg + 4"

definition APERIODIC_TASK_PRIORITY :: "config \<Rightarrow> nat" where
  "APERIODIC_TASK_PRIORITY cfg = tskIDLE_PRIORITY cfg + 5"

subsection \<open>Calls to the kernel and to the console\<close>

datatype task_code =
  VPeriodicTask1 | VPeriodicTask2 | VPeriodicTask3 | VPeriodicTask4 | AperiodicTask1

text \<open>
  A \<^verbatim>\<open>%ld\<close> argument is the signed value of a \<^verbatim>\<open>long\<close>. A \<^verbatim>\<open>%f\<close> argument is given
  as the exact rational the expression denotes: the rounding of IEEE single precision
  is not modelled, and nothing below depends on it.
\<close>

datatype printf_arg = Long int | Double rat

datatype call =
    Printf string "printf_arg list"
  | VTaskDelay nat
  | XQueueCreate nat nat
  | XQueueSend
  | XQueueReceive
  | XTaskCreate task_code string nat nat
  | VTaskStartScheduler

fun queue_access :: "call \<Rightarrow> bool" where
  "queue_access XQueueSend = True"
| "queue_access XQueueReceive = True"
| "queue_access _ = False"

text \<open>
  The body of \<^verbatim>\<open>for (;;)\<close> maps the task's local variables to the calls of one
  iteration and the variables afterwards. The loop never ends, so it is observed through
  its first \<open>n\<close> iterations: the calls of each, and the variables at the start of
  iteration \<open>n + 1\<close>.
\<close>

primrec iterations ::
  "('s \<Rightarrow> fault + (call list \<times> 's)) \<Rightarrow> nat \<Rightarrow> 's \<Rightarrow> fault + (call list list \<times> 's)" where
  "iterations body 0 s = Inr ([], s)"
| "iterations body (Suc n) s =
     (case body s of
        Inl f \<Rightarrow> Inl f
      | Inr (cs, s') \<Rightarrow>
          (case iterations body n s' of
             Inl f \<Rightarrow> Inl f
           | Inr (css, s'') \<Rightarrow> Inr (cs # css, s'')))"

subsection \<open>\<^verbatim>\<open>vPeriodicTask1\<close> and \<^verbatim>\<open>aperiodicTask1\<close>\<close>

definition vPeriodicTask1 :: "config \<Rightarrow> unit \<Rightarrow> fault + (call list \<times> unit)" where
  "vPeriodicTask1 cfg u =
     (case TASK1_PERIOD_MS cfg of
        Inl f \<Rightarrow> Inl f
      | Inr d \<Rightarrow> Inr ([Printf ''Working 1\<newline>'' [], VTaskDelay d], u))"

definition aperiodicTask1 :: "config \<Rightarrow> unit \<Rightarrow> fault + (call list \<times> unit)" where
  "aperiodicTask1 cfg u =
     (case APERIODIC_TASK_DELAY_MS cfg of
        Inl f \<Rightarrow> Inl f
      | Inr d \<Rightarrow> Inr ([VTaskDelay d, Printf ''Aperiodic task 1 finished\<newline>'' []], u))"

subsection \<open>\<^verbatim>\<open>vPeriodicTask2\<close>\<close>

record task2_state =
  fahrenheit :: rat

definition task2_init :: task2_state where
  "task2_init = \<lparr>fahrenheit = 100\<rparr>"

definition vPeriodicTask2 :: "config \<Rightarrow> task2_state \<Rightarrow> fault + (call list \<times> task2_state)" where
  "vPeriodicTask2 cfg s =
     (let celsius = (fahrenheit s - 32) * 5 / 9 in
      case TASK2_PERIOD_MS cfg of
        Inl f \<Rightarrow> Inl f
      | Inr d \<Rightarrow>
          Inr ([Printf ''Fahrenheit: %f, Celsius: %f\<newline>'' [Double (fahrenheit s), Double celsius],
                VTaskDelay d], s))"

subsection \<open>\<^verbatim>\<open>vPeriodicTask3\<close>\<close>

text \<open>
  \<^verbatim>\<open>long int\<close> has 64 bits on the Linux port the file is written for. C leaves the
  overflow of a signed multiplication undefined. The task multiplies the same two
  numbers in every run, and what it then prints is in question, so its variables are
  machine words: the product is what the processor computes, the low 64 bits, and
  \<^verbatim>\<open>%ld\<close> prints them as a two's complement number. \<open>LONG_MAX\<close> is the largest value
  of the type.
\<close>

definition LONG_MAX :: int where
  "LONG_MAX = 9223372036854775807"

record task3_state =
  num1 :: "64 word"
  num2 :: "64 word"
  result :: "64 word"

definition task3_init :: task3_state where
  "task3_init = \<lparr>num1 = 9876543210, num2 = 1234567890, result = 0\<rparr>"

definition vPeriodicTask3 :: "config \<Rightarrow> task3_state \<Rightarrow> fault + (call list \<times> task3_state)" where
  "vPeriodicTask3 cfg s =
     (let s' = s\<lparr>result := num1 s * num2 s\<rparr> in
      case TASK3_PERIOD_MS cfg of
        Inl f \<Rightarrow> Inl f
      | Inr d \<Rightarrow> Inr ([Printf ''Result: %ld\<newline>'' [Long (sint (result s'))], VTaskDelay d], s'))"

subsection \<open>\<^verbatim>\<open>vPeriodicTask4\<close>\<close>

text \<open>
  The search works on \<^verbatim>\<open>int\<close>, 32 bits wide. C leaves signed overflow and a
  subscript outside the array undefined. Here the model computes in \<open>int\<close> and stops
  with a fault where the C program would leave defined behaviour: a result of the model
  is then the result of every conforming execution, and a search that can go wrong shows
  as a fault. The elements and the target are only compared.
\<close>

definition INT_MAX :: int where
  "INT_MAX = 2147483647"

definition INT_MIN :: int where
  "INT_MIN = - 2147483648"

definition int_result :: "int \<Rightarrow> fault + int" where
  "int_result v = (if INT_MIN \<le> v \<and> v \<le> INT_MAX then Inr v else Inl Signed_Overflow)"

definition subscript :: "int list \<Rightarrow> int \<Rightarrow> fault + int" where
  "subscript xs i =
     (if 0 \<le> i \<and> i < int (length xs) then Inr (xs ! nat i) else Inl Index_Out_Of_Bounds)"

record task4_state =
  list_arr :: "int list"
  element_to_find :: int
  low :: int
  high :: int
  mid :: int
  found :: int

text \<open>
  The array \<^verbatim>\<open>list\<close> is the field \<open>list_arr\<close>. \<^verbatim>\<open>mid\<close> is declared without an
  initialiser: its first value \<open>mid0\<close> is arbitrary. The initialiser of \<^verbatim>\<open>list\<close> is
  written ten elements to a row.
\<close>

definition task4_init :: "int \<Rightarrow> task4_state" where
  "task4_init mid0 =
     \<lparr>list_arr =
        [1, 2, 3, 4, 5, 6, 7, 8, 9, 10] @ [11, 12, 13, 14, 15, 16, 17, 18, 19, 20] @
        [21, 22, 23, 24, 25, 26, 27, 28, 29, 30] @ [31, 32, 33, 34, 35, 36, 37, 38, 39, 40] @
        [41, 42, 43, 44, 45, 46, 47, 48, 49, 50],
      element_to_find = 25, low = 0, high = 49, mid = mid0, found = 0\<rparr>"

text \<open>\<^verbatim>\<open>mid = (low + high) / 2\<close>: the sum is checked, the quotient truncates towards zero.\<close>

definition midpoint :: "task4_state \<Rightarrow> fault + task4_state" where
  "midpoint s =
     (case int_result (low s + high s) of
        Inl f \<Rightarrow> Inl f
      | Inr sm \<Rightarrow> Inr (s\<lparr>mid := sm sdiv 2\<rparr>))"

text \<open>
  The \<^verbatim>\<open>if\<close> / \<^verbatim>\<open>else if\<close> / \<^verbatim>\<open>else\<close> on \<^verbatim>\<open>list[mid]\<close>. The flag of the result says
  whether the \<^verbatim>\<open>break\<close> was taken.
\<close>

definition probe :: "task4_state \<Rightarrow> fault + (bool \<times> task4_state)" where
  "probe s =
     (case subscript (list_arr s) (mid s) of
        Inl f \<Rightarrow> Inl f
      | Inr v \<Rightarrow>
          if v = element_to_find s then Inr (True, s\<lparr>found := 1\<rparr>)
          else if v < element_to_find s then
            (case int_result (mid s + 1) of
               Inl f \<Rightarrow> Inl f
             | Inr l \<Rightarrow> Inr (False, s\<lparr>low := l\<rparr>))
          else
            (case int_result (mid s - 1) of
               Inl f \<Rightarrow> Inl f
             | Inr h \<Rightarrow> Inr (False, s\<lparr>high := h\<rparr>)))"

lemma sdiv2_between:
  fixes l h :: int
  assumes "l \<le> h" and "0 \<le> (l + h) sdiv 2"
  shows "l \<le> (l + h) sdiv 2 \<and> (l + h) sdiv 2 \<le> h"
proof (cases "0 \<le> l + h")
  case True
  then have "(l + h) sdiv 2 = (l + h) div 2"
    by (simp add: signed_divide_int_def sgn_if)
  with assms show ?thesis by linarith
next
  case False
  then have "(l + h) sdiv 2 = - ((- (l + h)) div 2)"
    by (simp add: signed_divide_int_def sgn_if)
  with assms False show ?thesis by linarith
qed

text \<open>
  \<^verbatim>\<open>while (low <= high)\<close>. The first component of the result lists the variables at
  every evaluation of \<^verbatim>\<open>list[mid]\<close>, in order; the second is the fault, or the
  variables when the loop is left.
\<close>

function search_run :: "task4_state \<Rightarrow> task4_state list \<times> (fault + task4_state)" where
  "search_run s =
     (if low s \<le> high s then
        (case midpoint s of
           Inl f \<Rightarrow> ([], Inl f)
         | Inr p \<Rightarrow>
             (case probe p of
                Inl f \<Rightarrow> ([p], Inl f)
              | Inr (brk, s') \<Rightarrow>
                  if brk then ([p], Inr s') else apfst ((#) p) (search_run s')))
      else ([], Inr s))"
  by pat_completeness auto
termination
proof (relation "measure (\<lambda>s. nat (high s - low s + 1))")
  show "wf (measure (\<lambda>s. nat (high s - low s + 1)))"
    by simp
next
  fix s p x brk s'
  assume g: "low s \<le> high s" and m: "midpoint s = Inr p" and c: "probe p = Inr x"
    and x: "(brk, s') = x" and nb: "\<not> brk"
  from m obtain sm where sm: "int_result (low s + high s) = Inr sm"
    and p: "p = s\<lparr>mid := sm sdiv 2\<rparr>"
    by (auto simp: midpoint_def split: sum.splits)
  from sm have sm_eq: "sm = low s + high s"
    by (auto simp: int_result_def split: if_splits)
  from c x nb have "0 \<le> mid p"
    by (auto simp: probe_def subscript_def split: sum.splits if_splits)
  with p sm_eq g have b: "low s \<le> mid p \<and> mid p \<le> high s"
    using sdiv2_between [of "low s" "high s"] by simp
  from c x nb
  have "(low s' = mid p + 1 \<and> high s' = high p) \<or> (high s' = mid p - 1 \<and> low s' = low p)"
    by (auto simp: probe_def int_result_def split: sum.splits if_splits)
  with b p g show "(s', s) \<in> measure (\<lambda>s. nat (high s - low s + 1))"
    by auto
qed

declare search_run.simps [simp del]

definition search_probes :: "task4_state \<Rightarrow> task4_state list" where
  "search_probes s = fst (search_run s)"

definition search_loop :: "task4_state \<Rightarrow> fault + task4_state" where
  "search_loop s = snd (search_run s)"

definition vPeriodicTask4 :: "config \<Rightarrow> task4_state \<Rightarrow> fault + (call list \<times> task4_state)" where
  "vPeriodicTask4 cfg s =
     (case search_loop s of
        Inl f \<Rightarrow> Inl f
      | Inr s' \<Rightarrow>
          (case TASK4_PERIOD_MS cfg of
             Inl f \<Rightarrow> Inl f
           | Inr d \<Rightarrow>
               Inr ([if found s' \<noteq> 0 then Printf ''Element found\<newline>'' []
                     else Printf ''Element not found\<newline>'' [],
                     VTaskDelay d], s')))"

text \<open>
  The search of \<^verbatim>\<open>vPeriodicTask4\<close> for any array and any target, as the specification
  generalises it: the bounds start at the first and the last index.
\<close>

definition unit_d_init :: "int list \<Rightarrow> int \<Rightarrow> int \<Rightarrow> task4_state" where
  "unit_d_init xs target mid0 =
     \<lparr>list_arr = xs, element_to_find = target, low = 0, high = int (length xs) - 1,
      mid = mid0, found = 0\<rparr>"

subsection \<open>Ticks\<close>

text \<open>
  An iteration of a periodic task is its work, here one \<^verbatim>\<open>printf\<close> with what is
  computed for it, followed by one \<^verbatim>\<open>vTaskDelay\<close> of the period.
\<close>

fun work_then_delay :: "nat \<Rightarrow> call list \<Rightarrow> bool" where
  "work_then_delay d [Printf fmt args, VTaskDelay d'] = (d' = d)"
| "work_then_delay d cs = False"

text \<open>
  Modelled from the spec: \<^verbatim>\<open>vTaskDelay\<close> is the kernel's and not in the file. The
  specification (sections 4.2 and 6) gives it as the relative delay: the caller is
  suspended for the given number of ticks, counted from the call. Time is the kernel's
  tick count. What the processor and the scheduler contribute is a parameter: for the
  task's \<open>k\<close>-th call, \<open>run_ticks\<close> is the number of ticks from the return of the call
  before until this call is issued, or has returned when it does not suspend (the task's
  own execution and any preemption), and \<open>wake_lag\<close> the number of ticks between the
  expiry of its delay and the task running again.
\<close>

record pace =
  run_ticks :: "nat \<Rightarrow> nat"
  wake_lag :: "nat \<Rightarrow> nat"

text \<open>The tick at which the task's \<open>k\<close>-th call returns, the call before having returned at \<open>t\<close>.\<close>

fun returns_at :: "pace \<Rightarrow> nat \<Rightarrow> nat \<Rightarrow> call \<Rightarrow> nat" where
  "returns_at pc k t (VTaskDelay d) = t + run_ticks pc k + d + wake_lag pc k"
| "returns_at pc k t c = t + run_ticks pc k"

fun clock :: "pace \<Rightarrow> nat \<Rightarrow> nat \<Rightarrow> call list \<Rightarrow> nat" where
  "clock pc k t [] = t"
| "clock pc k t (c # cs) = clock pc (Suc k) (returns_at pc k t c) cs"

text \<open>
  For every iteration its release instant, the tick at which it begins, and its execution
  time, the ticks spent before its calls are issued.
\<close>

fun timeline :: "pace \<Rightarrow> nat \<Rightarrow> nat \<Rightarrow> call list list \<Rightarrow> (nat \<times> nat) list" where
  "timeline pc k t [] = []"
| "timeline pc k t (cs # css) =
     (t, sum_list (map (run_ticks pc) [k ..< k + length cs]))
       # timeline pc (k + length cs) (clock pc k t cs) css"

text \<open>
  Consecutive release instants lie at least the delay \<open>d\<close> plus the execution time of the
  earlier iteration apart.
\<close>

fun spaced :: "nat \<Rightarrow> (nat \<times> nat) list \<Rightarrow> bool" where
  "spaced d ((t, e) # (t', e') # rest) = (t + e + d \<le> t' \<and> spaced d ((t', e') # rest))"
| "spaced d rest = True"

text \<open>
  What a periodic wrapper promises for its first \<open>n\<close> iterations, started at tick \<open>t0\<close>:
  they run without a fault, each is the work followed by exactly one \<^verbatim>\<open>vTaskDelay\<close> of
  the period, and the release instants are spaced accordingly.
\<close>

definition periodic_wrapper ::
  "('s \<Rightarrow> fault + (call list \<times> 's)) \<Rightarrow> 's \<Rightarrow> fault + nat \<Rightarrow> nat \<Rightarrow> pace \<Rightarrow> nat \<Rightarrow> bool" where
  "periodic_wrapper body init period n pc t0 =
     (case period of
        Inl f \<Rightarrow> False
      | Inr d \<Rightarrow>
          (case iterations body n init of
             Inl f \<Rightarrow> False
           | Inr (css, s) \<Rightarrow>
               length css = n \<and> list_all (work_then_delay d) css
               \<and> spaced d (timeline pc 0 t0 css)))"

text \<open>The first \<open>n\<close> iterations of a task run without a fault and do not touch a queue.\<close>

definition leaves_queue_alone :: "('s \<Rightarrow> fault + (call list \<times> 's)) \<Rightarrow> 's \<Rightarrow> nat \<Rightarrow> bool" where
  "leaves_queue_alone body init n =
     (case iterations body n init of
        Inl f \<Rightarrow> False
      | Inr (css, s) \<Rightarrow> length css = n \<and> \<not> list_ex queue_access (concat css))"

subsection \<open>The registrar \<^verbatim>\<open>ipsa_sched\<close>\<close>

text \<open>
  Modelled from the spec: \<^verbatim>\<open>xQueueCreate\<close>, \<^verbatim>\<open>xTaskCreate\<close> and \<^verbatim>\<open>vTaskStartScheduler\<close> are
  the kernel's and not in the file. The specification (section 6) gives them as
  create-queue and create-task, each answering with a handle or with failure, and
  start-scheduler, which does not return on success. Whether a request finds the memory
  it needs is the kernel's answer; \<open>resources\<close> holds the answer to each request.
\<close>

record resources =
  queue_fits :: bool
  task_fits :: "task_code \<Rightarrow> bool"
  scheduler_fits :: bool

text \<open>
  The arguments of \<^verbatim>\<open>xTaskCreate\<close> under the kernel's parameter names;
  \<^verbatim>\<open>pvParameters\<close> and \<^verbatim>\<open>pxCreatedTask\<close> are \<^verbatim>\<open>NULL\<close> in every call and left out.
\<close>

record task_descriptor =
  pxTaskCode :: task_code
  pcName :: string
  usStackDepth :: nat
  uxPriority :: nat

datatype control = Startup | Scheduler_Running | Idle_Loop

text \<open>
  \<open>xQueue\<close> is the file's global handle (\<^verbatim>\<open>NULL\<close> is \<open>None\<close>; a queue is its length and
  item size), \<open>trace\<close> the calls made so far, \<open>tasks\<close> the tasks the kernel holds, in the
  order of their creation.
\<close>

record system =
  xQueue :: "(nat \<times> nat) option"
  trace :: "call list"
  tasks :: "task_descriptor list"
  control :: control

definition boot :: system where
  "boot = \<lparr>xQueue = None, trace = [], tasks = [], control = Startup\<rparr>"

definition xQueueCreate :: "resources \<Rightarrow> nat \<Rightarrow> nat \<Rightarrow> system \<Rightarrow> (nat \<times> nat) option \<times> system" where
  "xQueueCreate r len item sys =
     (if queue_fits r then Some (len, item) else None,
      sys\<lparr>trace := trace sys @ [XQueueCreate len item]\<rparr>)"

definition xTaskCreate ::
  "resources \<Rightarrow> task_code \<Rightarrow> string \<Rightarrow> nat \<Rightarrow> nat \<Rightarrow> system \<Rightarrow> bool \<times> system" where
  "xTaskCreate r code nm depth prio sys =
     (task_fits r code,
      sys\<lparr>trace := trace sys @ [XTaskCreate code nm depth prio],
          tasks := (if task_fits r code
                    then tasks sys @ [\<lparr>pxTaskCode = code, pcName = nm, usStackDepth = depth,
                                       uxPriority = prio\<rparr>]
                    else tasks sys)\<rparr>)"

definition vTaskStartScheduler :: "resources \<Rightarrow> system \<Rightarrow> system" where
  "vTaskStartScheduler r sys =
     sys\<lparr>trace := trace sys @ [VTaskStartScheduler],
         control := (if scheduler_fits r then Scheduler_Running else control sys)\<rparr>"

text \<open>
  \<^verbatim>\<open>ipsa_sched\<close> never returns: either the scheduler runs and the function is not
  resumed, or it spins in its final \<^verbatim>\<open>for (;;)\<close>. The result is the system in which it
  stays, \<open>control\<close> telling which of the two. The value \<^verbatim>\<open>xTaskCreate\<close> returns is
  dropped, as in the file.
\<close>

definition ipsa_sched :: "config \<Rightarrow> resources \<Rightarrow> system" where
  "ipsa_sched cfg r =
     (let (q, s0) = xQueueCreate r mainQUEUE_LENGTH sizeof_uint32_t boot;
          s1 = s0\<lparr>xQueue := q\<rparr>;
          s7 =
            (if xQueue s1 \<noteq> None then
               (let s2 = snd (xTaskCreate r VPeriodicTask1 ''TX1''
                               (configMINIMAL_STACK_SIZE cfg) (TASK1_PRIORITY cfg) s1);
                    s3 = snd (xTaskCreate r VPeriodicTask2 ''TX2''
                               (configMINIMAL_STACK_SIZE cfg) (TASK2_PRIORITY cfg) s2);
                    s4 = snd (xTaskCreate r VPeriodicTask3 ''TX3''
                               (configMINIMAL_STACK_SIZE cfg) (TASK3_PRIORITY cfg) s3);
                    s5 = snd (xTaskCreate r VPeriodicTask4 ''TX4''
                               (configMINIMAL_STACK_SIZE cfg) (TASK4_PRIORITY cfg) s4);
                    s6 = snd (xTaskCreate r AperiodicTask1 ''Aperiodic''
                               (configMINIMAL_STACK_SIZE cfg) (APERIODIC_TASK_PRIORITY cfg) s5)
                in vTaskStartScheduler r s6)
             else s1)
      in if control s7 = Scheduler_Running then s7 else s7\<lparr>control := Idle_Loop\<rparr>)"

text \<open>The \<^verbatim>\<open>xTaskCreate\<close> requests of a trace, as descriptors, in order.\<close>

fun create_requests :: "call list \<Rightarrow> task_descriptor list" where
  "create_requests [] = []"
| "create_requests (XTaskCreate code nm depth prio # cs) =
     \<lparr>pxTaskCode = code, pcName = nm, usStackDepth = depth, uxPriority = prio\<rparr> # create_requests cs"
| "create_requests (c # cs) = create_requests cs"

fun queue_creation :: "call \<Rightarrow> bool" where
  "queue_creation (XQueueCreate len item) = True"
| "queue_creation c = False"

section \<open>Auxiliary facts\<close>

subsection \<open>The registrar\<close>

lemma trace_ipsa_sched:
  "trace (ipsa_sched cfg r) =
     (if queue_fits r then
        [XQueueCreate 2 4,
         XTaskCreate VPeriodicTask1 ''TX1'' (configMINIMAL_STACK_SIZE cfg) (tskIDLE_PRIORITY cfg + 1),
         XTaskCreate VPeriodicTask2 ''TX2'' (configMINIMAL_STACK_SIZE cfg) (tskIDLE_PRIORITY cfg + 2),
         XTaskCreate VPeriodicTask3 ''TX3'' (configMINIMAL_STACK_SIZE cfg) (tskIDLE_PRIORITY cfg + 3),
         XTaskCreate VPeriodicTask4 ''TX4'' (configMINIMAL_STACK_SIZE cfg) (tskIDLE_PRIORITY cfg + 4),
         XTaskCreate AperiodicTask1 ''Aperiodic'' (configMINIMAL_STACK_SIZE cfg) (tskIDLE_PRIORITY cfg + 5),
         VTaskStartScheduler]
      else [XQueueCreate 2 4])"
  by (simp add: ipsa_sched_def xQueueCreate_def xTaskCreate_def vTaskStartScheduler_def boot_def
      mainQUEUE_LENGTH_def sizeof_uint32_t_def Let_def TASK1_PRIORITY_def TASK2_PRIORITY_def
      TASK3_PRIORITY_def TASK4_PRIORITY_def APERIODIC_TASK_PRIORITY_def)



lemma xQueue_ipsa_sched:
  "xQueue (ipsa_sched cfg r) = (if queue_fits r then Some (2, 4) else None)"
  by (simp add: ipsa_sched_def xQueueCreate_def xTaskCreate_def vTaskStartScheduler_def boot_def
      Let_def mainQUEUE_LENGTH_def sizeof_uint32_t_def)

subsection \<open>The search loop\<close>

lemma midpoint_Inr:
  "midpoint s = Inr p \<longleftrightarrow>
     INT_MIN \<le> low s + high s \<and> low s + high s \<le> INT_MAX \<and> p = s\<lparr>mid := (low s + high s) sdiv 2\<rparr>"
  by (auto simp: midpoint_def int_result_def)

lemma sdiv2_nonneg: "0 \<le> (k::int) \<Longrightarrow> k sdiv 2 = k div 2"
  by (simp add: signed_divide_int_def sgn_if)

lemma sdiv2_bounds:
  fixes k :: int
  shows "k - 1 \<le> 2 * (k sdiv 2) \<and> 2 * (k sdiv 2) \<le> k + 1"
proof (cases "0 \<le> k")
  case True
  then have "k sdiv 2 = k div 2"
    by (simp add: signed_divide_int_def sgn_if)
  then show ?thesis by linarith
next
  case False
  then have "k sdiv 2 = - ((- k) div 2)"
    by (simp add: signed_divide_int_def sgn_if)
  then show ?thesis by linarith
qed

lemma probe_Inr:
  assumes "probe p = Inr (brk, s')"
  shows "0 \<le> mid p \<and> mid p < int (length (list_arr p)) \<and>
         ((brk \<and> list_arr p ! nat (mid p) = element_to_find p \<and> s' = p\<lparr>found := 1\<rparr>)
          \<or> (\<not> brk \<and> list_arr p ! nat (mid p) < element_to_find p \<and> s' = p\<lparr>low := mid p + 1\<rparr>)
          \<or> (\<not> brk \<and> element_to_find p < list_arr p ! nat (mid p) \<and> s' = p\<lparr>high := mid p - 1\<rparr>))"
  using assms
  by (auto simp: probe_def subscript_def int_result_def split: if_splits)

lemma probe_in_bounds:
  assumes "0 \<le> mid p" "mid p < int (length (list_arr p))" "int (length (list_arr p)) \<le> 2 ^ 30"
  shows "\<exists>brk s'. probe p = Inr (brk, s')"
  using assms
  by (auto simp: probe_def subscript_def int_result_def INT_MAX_def INT_MIN_def)

lemma search_run_exit: "\<not> low s \<le> high s \<Longrightarrow> search_run s = ([], Inr s)"
  by (simp add: search_run.simps)

lemma search_run_midpoint_fault:
  "low s \<le> high s \<Longrightarrow> midpoint s = Inl f \<Longrightarrow> search_run s = ([], Inl f)"
  by (simp add: search_run.simps)

lemma search_run_probe_fault:
  "low s \<le> high s \<Longrightarrow> midpoint s = Inr p \<Longrightarrow> probe p = Inl f \<Longrightarrow>
     search_run s = ([p], Inl f)"
  by (simp add: search_run.simps)

lemma search_run_break:
  "low s \<le> high s \<Longrightarrow> midpoint s = Inr p \<Longrightarrow> probe p = Inr (True, s') \<Longrightarrow>
     search_run s = ([p], Inr s')"
  by (simp add: search_run.simps)

lemma search_run_continue:
  "low s \<le> high s \<Longrightarrow> midpoint s = Inr p \<Longrightarrow> probe p = Inr (False, s') \<Longrightarrow>
     search_run s = (p # fst (search_run s'), snd (search_run s'))"
  by (simp add: search_run.simps apfst_def map_prod_def split_beta)

text \<open>
  A probe that does not leave the loop moves one bound past \<open>mid\<close>: the range shrinks
  to at most half of what it was.
\<close>

lemma step_narrows:
  assumes "low s \<le> high s" "midpoint s = Inr p" "probe p = Inr (False, s')"
  shows "low s \<le> low s' \<and> high s' \<le> high s \<and> high s' - low s' < high s - low s
         \<and> 2 * (high s' - low s' + 1) \<le> high s - low s + 1"
proof -
  from assms(2) have p: "p = s\<lparr>mid := (low s + high s) sdiv 2\<rparr>"
    by (simp add: midpoint_Inr)
  from probe_Inr [OF assms(3)] have m0: "0 \<le> mid p"
    and c: "s' = p\<lparr>low := mid p + 1\<rparr> \<or> s' = p\<lparr>high := mid p - 1\<rparr>"
    by auto
  from m0 p have nn: "0 \<le> (low s + high s) sdiv 2" by simp
  from sdiv2_between [OF assms(1) nn] p
  have b: "low s \<le> mid p" "mid p \<le> high s" by simp_all
  from sdiv2_bounds [of "low s + high s"] p
  have h: "low s + high s - 1 \<le> 2 * mid p" "2 * mid p \<le> low s + high s + 1" by simp_all
  from c show ?thesis
  proof
    assume "s' = p\<lparr>low := mid p + 1\<rparr>"
    with p b h show ?thesis by simp
  next
    assume "s' = p\<lparr>high := mid p - 1\<rparr>"
    with p b h show ?thesis by simp
  qed
qed

lemma probes_logarithmic:
  "high s - low s + 1 < 2 ^ k \<Longrightarrow> length (fst (search_run s)) \<le> k"
proof (induction k arbitrary: s)
  case 0
  then have "\<not> low s \<le> high s" by simp
  then show ?case by (simp add: search_run_exit)
next
  case (Suc k)
  show ?case
  proof (cases "low s \<le> high s")
    case False
    then show ?thesis by (simp add: search_run_exit)
  next
    case g: True
    show ?thesis
    proof (cases "midpoint s")
      case (Inl f)
      with g show ?thesis by (simp add: search_run_midpoint_fault)
    next
      case (Inr p)
      show ?thesis
      proof (cases "probe p")
        case (Inl f)
        with g Inr show ?thesis by (simp add: search_run_probe_fault)
      next
        case pr: (Inr x)
        obtain brk s' where x: "x = (brk, s')" by (cases x)
        show ?thesis
        proof (cases brk)
          case True
          with g Inr pr x show ?thesis by (simp add: search_run_break)
        next
          case False
          with pr x have st: "probe p = Inr (False, s')" by simp
          from step_narrows [OF g Inr st] Suc.prems
          have "high s' - low s' + 1 < 2 ^ k" by simp
          then have "length (fst (search_run s')) \<le> k" by (rule Suc.IH)
          with g Inr st show ?thesis by (simp add: search_run_continue)
        qed
      qed
    qed
  qed
qed

text \<open>
  Safety: with bounds inside an array of at most \<open>2 ^ 30\<close> elements the loop ends without
  a fault, and at every evaluation of \<^verbatim>\<open>list[mid]\<close> the index lies between the bounds.
\<close>

lemma search_run_safe:
  assumes "0 \<le> low s" and "high s < int (length (list_arr s))"
    and "int (length (list_arr s)) \<le> 2 ^ 30"
  shows "(\<exists>s'. snd (search_run s) = Inr s') \<and>
         (\<forall>p \<in> set (fst (search_run s)).
            list_arr p = list_arr s \<and> low s \<le> low p \<and> low p \<le> mid p \<and> mid p \<le> high p
            \<and> high p \<le> high s \<and> low p + high p \<le> INT_MAX \<and> mid p = (low p + high p) div 2)"
  using assms
proof (induction s rule: search_run.induct)
  case (1 s)
  show ?case
  proof (cases "low s \<le> high s")
    case False
    then show ?thesis by (simp add: search_run_exit)
  next
    case g: True
    from "1.prems" g have sum: "0 \<le> low s + high s" "low s + high s \<le> INT_MAX" "INT_MIN \<le> low s + high s"
      by (simp_all add: INT_MAX_def INT_MIN_def)
    define p where "p = s\<lparr>mid := (low s + high s) sdiv 2\<rparr>"
    from sum have mp: "midpoint s = Inr p"
      by (simp add: midpoint_Inr p_def)
    have midp: "mid p = (low s + high s) div 2"
      using sum by (simp add: p_def sdiv2_nonneg)
    with g "1.prems" have b: "low s \<le> mid p" "mid p \<le> high s" "0 \<le> mid p"
      by linarith+
    have pfacts: "list_arr p = list_arr s" "low p = low s" "high p = high s"
      by (simp_all add: p_def)
    from b "1.prems" pfacts have "\<exists>brk s'. probe p = Inr (brk, s')"
      by (intro probe_in_bounds) simp_all
    then obtain brk s' where pr: "probe p = Inr (brk, s')" by blast
    have here: "list_arr p = list_arr s \<and> low s \<le> low p \<and> low p \<le> mid p \<and> mid p \<le> high p
            \<and> high p \<le> high s \<and> low p + high p \<le> INT_MAX \<and> mid p = (low p + high p) div 2"
      using pfacts b sum midp by simp
    show ?thesis
    proof (cases brk)
      case True
      with g mp pr here show ?thesis by (simp add: search_run_break)
    next
      case False
      with pr have st: "probe p = Inr (False, s')" by simp
      from probe_Inr [OF st] have c: "s' = p\<lparr>low := mid p + 1\<rparr> \<or> s' = p\<lparr>high := mid p - 1\<rparr>"
        by auto
      then have s'facts: "list_arr s' = list_arr s" "0 \<le> low s'" "high s' < int (length (list_arr s))"
        "low s \<le> low s'" "high s' \<le> high s"
        using pfacts b "1.prems" by auto
      have IH: "(\<exists>s''. snd (search_run s') = Inr s'') \<and>
         (\<forall>q \<in> set (fst (search_run s')).
            list_arr q = list_arr s' \<and> low s' \<le> low q \<and> low q \<le> mid q \<and> mid q \<le> high q
            \<and> high q \<le> high s' \<and> low q + high q \<le> INT_MAX \<and> mid q = (low q + high q) div 2)"
      proof (rule "1.IH" [OF g mp pr refl False])
        show "0 \<le> low s'" by (rule s'facts)
        show "high s' < int (length (list_arr s'))" using s'facts by simp
        show "int (length (list_arr s')) \<le> 2 ^ 30" using s'facts "1.prems" by simp
      qed
      with g mp st here s'facts show ?thesis
        by (auto simp: search_run_continue)
    qed
  qed
qed

text \<open>
  Correctness on a sorted array: the target is found exactly when it stands between the
  bounds, and a search that misses ends with the bounds crossed.
\<close>

lemma search_run_correct:
  assumes "sorted (list_arr s)" and "0 \<le> low s" and "high s < int (length (list_arr s))"
    and "int (length (list_arr s)) \<le> 2 ^ 30"
  shows "\<exists>s'. snd (search_run s) = Inr s' \<and> list_arr s' = list_arr s
           \<and> element_to_find s' = element_to_find s
           \<and> (if \<exists>i. low s \<le> i \<and> i \<le> high s \<and> list_arr s ! nat i = element_to_find s
               then found s' = 1 \<and> low s' \<le> high s'
               else found s' = found s \<and> high s' < low s')"
  using assms
proof (induction s rule: search_run.induct)
  case (1 s)
  let ?present = "\<lambda>s. \<exists>i. low s \<le> i \<and> i \<le> high s \<and> list_arr s ! nat i = element_to_find s"
  show ?case
  proof (cases "low s \<le> high s")
    case False
    then have "\<not> ?present s" by auto
    with False show ?thesis by (simp add: search_run_exit)
  next
    case g: True
    from "1.prems" g have sum: "0 \<le> low s + high s" "low s + high s \<le> INT_MAX" "INT_MIN \<le> low s + high s"
      by (simp_all add: INT_MAX_def INT_MIN_def)
    define p where "p = s\<lparr>mid := (low s + high s) sdiv 2\<rparr>"
    from sum have mp: "midpoint s = Inr p"
      by (simp add: midpoint_Inr p_def)
    have midp: "mid p = (low s + high s) div 2"
      using sum by (simp add: p_def sdiv2_nonneg)
    with g "1.prems" have b: "low s \<le> mid p" "mid p \<le> high s" "0 \<le> mid p"
      by linarith+
    have pfacts: "list_arr p = list_arr s" "low p = low s" "high p = high s"
      "element_to_find p = element_to_find s" "found p = found s"
      by (simp_all add: p_def)
    from b "1.prems" pfacts have "\<exists>brk s'. probe p = Inr (brk, s')"
      by (intro probe_in_bounds) simp_all
    then obtain brk s' where pr: "probe p = Inr (brk, s')" by blast
    have mlen: "nat (mid p) < length (list_arr s)"
      using b "1.prems" by simp
    show ?thesis
    proof (cases brk)
      case True
      with probe_Inr [OF pr] have hit: "list_arr p ! nat (mid p) = element_to_find p"
        and s': "s' = p\<lparr>found := 1\<rparr>" by auto
      from hit b pfacts have "?present s" by auto
      moreover from True g mp pr have "search_run s = ([p], Inr s')"
        by (simp add: search_run_break)
      ultimately show ?thesis using s' pfacts g by simp
    next
      case False
      with pr have st: "probe p = Inr (False, s')" by simp
      from probe_Inr [OF st]
      have c: "(list_arr p ! nat (mid p) < element_to_find p \<and> s' = p\<lparr>low := mid p + 1\<rparr>)
               \<or> (element_to_find p < list_arr p ! nat (mid p) \<and> s' = p\<lparr>high := mid p - 1\<rparr>)"
        by auto
      then have s'facts: "list_arr s' = list_arr s" "0 \<le> low s'" "high s' < int (length (list_arr s))"
        "element_to_find s' = element_to_find s" "found s' = found s"
        using pfacts b "1.prems" by auto
      have same: "?present s' \<longleftrightarrow> ?present s"
        using c
      proof
        assume a: "list_arr p ! nat (mid p) < element_to_find p \<and> s' = p\<lparr>low := mid p + 1\<rparr>"
        then have lt: "list_arr s ! nat (mid p) < element_to_find s" and
          s': "low s' = mid p + 1" "high s' = high s"
          using pfacts by simp_all
        have "list_arr s ! nat i \<noteq> element_to_find s" if "low s \<le> i" "i \<le> mid p" for i
        proof -
          from that "1.prems" have "nat i \<le> nat (mid p)" by simp
          with "1.prems"(1) mlen have "list_arr s ! nat i \<le> list_arr s ! nat (mid p)"
            by (simp add: sorted_nth_mono)
          with lt show ?thesis by simp
        qed
        then have "?present s \<Longrightarrow> ?present s'"
          using s' s'facts by (metis add1_zle_eq not_le_imp_less)
        moreover have "?present s' \<Longrightarrow> ?present s"
          using s' s'facts b by (metis add1_zle_eq order.strict_trans1 less_le_not_le order.trans)
        ultimately show ?thesis by blast
      next
        assume a: "element_to_find p < list_arr p ! nat (mid p) \<and> s' = p\<lparr>high := mid p - 1\<rparr>"
        then have gt: "element_to_find s < list_arr s ! nat (mid p)" and
          s': "high s' = mid p - 1" "low s' = low s"
          using pfacts by simp_all
        have "list_arr s ! nat i \<noteq> element_to_find s" if "mid p \<le> i" "i \<le> high s" for i
        proof -
          from that "1.prems" b have "nat (mid p) \<le> nat i" "nat i < length (list_arr s)" by simp_all
          with "1.prems"(1) have "list_arr s ! nat (mid p) \<le> list_arr s ! nat i"
            by (simp add: sorted_nth_mono)
          with gt show ?thesis by simp
        qed
        then have "?present s \<Longrightarrow> ?present s'"
          using s' s'facts by (metis zle_diff1_eq not_le_imp_less)
        moreover have "?present s' \<Longrightarrow> ?present s"
          using s' s'facts b by (metis zle_diff1_eq order.strict_trans2 less_le_not_le order.trans)
        ultimately show ?thesis by blast
      qed
      have IH: "\<exists>s''. snd (search_run s') = Inr s'' \<and> list_arr s'' = list_arr s'
           \<and> element_to_find s'' = element_to_find s'
           \<and> (if ?present s' then found s'' = 1 \<and> low s'' \<le> high s''
               else found s'' = found s' \<and> high s'' < low s'')"
      proof (rule "1.IH" [OF g mp pr refl False])
        show "sorted (list_arr s')" using s'facts "1.prems" by simp
        show "0 \<le> low s'" by (rule s'facts)
        show "high s' < int (length (list_arr s'))" using s'facts by simp
        show "int (length (list_arr s')) \<le> 2 ^ 30" using s'facts "1.prems" by simp
      qed
      from IH obtain s'' where r: "snd (search_run s') = Inr s''" "list_arr s'' = list_arr s'"
          "element_to_find s'' = element_to_find s'"
        and cond: "if ?present s' then found s'' = 1 \<and> low s'' \<le> high s''
               else found s'' = found s' \<and> high s'' < low s''"
        by blast
      from g mp st r have "snd (search_run s) = Inr s''"
        by (simp add: search_run_continue)
      moreover from r s'facts have "list_arr s'' = list_arr s"
        "element_to_find s'' = element_to_find s" by simp_all
      moreover from cond have "if ?present s then found s'' = 1 \<and> low s'' \<le> high s''
               else found s'' = found s \<and> high s'' < low s''"
        unfolding same s'facts(5) .
      ultimately show ?thesis by blast
    qed
  qed
qed

lemma present_iff_member:
  "(\<exists>i. 0 \<le> i \<and> i \<le> int (length xs) - 1 \<and> xs ! nat i = t) \<longleftrightarrow> t \<in> set xs"
proof
  assume "\<exists>i. 0 \<le> i \<and> i \<le> int (length xs) - 1 \<and> xs ! nat i = t"
  then obtain i where "0 \<le> i" "i \<le> int (length xs) - 1" "xs ! nat i = t" by blast
  then have "nat i < length xs" "xs ! nat i = t" by simp_all
  then show "t \<in> set xs" by (auto simp: in_set_conv_nth)
next
  assume "t \<in> set xs"
  then obtain k where "k < length xs" "xs ! k = t" by (auto simp: in_set_conv_nth)
  then have "0 \<le> int k \<and> int k \<le> int (length xs) - 1 \<and> xs ! nat (int k) = t" by simp
  then show "\<exists>i. 0 \<le> i \<and> i \<le> int (length xs) - 1 \<and> xs ! nat i = t" by blast
qed

subsection \<open>The tasks, iteration by iteration\<close>

lemma iterations_steady:
  assumes "body s = Inr (cs, s)"
  shows "iterations body n s = Inr (replicate n cs, s)"
  by (induction n) (simp_all add: assms)

lemma iterations_after_first:
  assumes "body s0 = Inr (cs, s1)" and "body s1 = Inr (cs, s1)"
  shows "iterations body n s0 = Inr (replicate n cs, if n = 0 then s0 else s1)"
proof (cases n)
  case 0
  then show ?thesis by simp
next
  case (Suc m)
  with assms show ?thesis by (simp add: iterations_steady)
qed

lemma search_run_task4_first:
  "search_run (task4_init mid0) =
     ([(task4_init mid0)\<lparr>mid := 24\<rparr>], Inr ((task4_init mid0)\<lparr>mid := 24, found := 1\<rparr>))"
  by (simp add: search_run.simps task4_init_def midpoint_def probe_def int_result_def
      subscript_def INT_MAX_def INT_MIN_def signed_divide_int_def)

lemma search_run_task4_later:
  "search_run ((task4_init mid0)\<lparr>mid := 24, found := 1\<rparr>) =
     ([(task4_init mid0)\<lparr>mid := 24, found := 1\<rparr>], Inr ((task4_init mid0)\<lparr>mid := 24, found := 1\<rparr>))"
  by (simp add: search_run.simps task4_init_def midpoint_def probe_def int_result_def
      subscript_def INT_MAX_def INT_MIN_def signed_divide_int_def)

lemma vPeriodicTask4_first:
  assumes "portTICK_PERIOD_MS cfg \<noteq> 0"
  shows "vPeriodicTask4 cfg (task4_init mid0) =
     Inr ([Printf ''Element found\<newline>'' [], VTaskDelay (166 div portTICK_PERIOD_MS cfg)],
          (task4_init mid0)\<lparr>mid := 24, found := 1\<rparr>)"
  using assms
  by (simp add: vPeriodicTask4_def search_loop_def search_run_task4_first TASK4_PERIOD_MS_def
      ms_to_ticks_def)

lemma vPeriodicTask4_later:
  assumes "portTICK_PERIOD_MS cfg \<noteq> 0"
  shows "vPeriodicTask4 cfg ((task4_init mid0)\<lparr>mid := 24, found := 1\<rparr>) =
     Inr ([Printf ''Element found\<newline>'' [], VTaskDelay (166 div portTICK_PERIOD_MS cfg)],
          (task4_init mid0)\<lparr>mid := 24, found := 1\<rparr>)"
  using assms
  by (simp add: vPeriodicTask4_def search_loop_def search_run_task4_later TASK4_PERIOD_MS_def
      ms_to_ticks_def)

lemma iterations_task1:
  assumes "portTICK_PERIOD_MS cfg \<noteq> 0"
  shows "iterations (vPeriodicTask1 cfg) n () =
     Inr (replicate n [Printf ''Working 1\<newline>'' [], VTaskDelay (166 div portTICK_PERIOD_MS cfg)], ())"
  using assms
  by (intro iterations_steady) (simp add: vPeriodicTask1_def TASK1_PERIOD_MS_def ms_to_ticks_def)

lemma iterations_task2:
  assumes "portTICK_PERIOD_MS cfg \<noteq> 0"
  shows "iterations (vPeriodicTask2 cfg) n task2_init =
     Inr (replicate n [Printf ''Fahrenheit: %f, Celsius: %f\<newline>'' [Double 100, Double (340 / 9)],
                       VTaskDelay (170 div portTICK_PERIOD_MS cfg)], task2_init)"
  using assms
  by (intro iterations_steady)
    (simp add: vPeriodicTask2_def TASK2_PERIOD_MS_def ms_to_ticks_def task2_init_def)

lemma iterations_task3:
  assumes "portTICK_PERIOD_MS cfg \<noteq> 0"
  shows "iterations (vPeriodicTask3 cfg) n task3_init =
     Inr (replicate n [Printf ''Result: %ld\<newline>'' [Long (sint (num1 task3_init * num2 task3_init))],
                       VTaskDelay (186 div portTICK_PERIOD_MS cfg)],
          if n = 0 then task3_init else task3_init\<lparr>result := num1 task3_init * num2 task3_init\<rparr>)"
  using assms
  by (intro iterations_after_first)
    (simp_all add: vPeriodicTask3_def TASK3_PERIOD_MS_def ms_to_ticks_def task3_init_def)

lemma iterations_task4:
  assumes "portTICK_PERIOD_MS cfg \<noteq> 0"
  shows "iterations (vPeriodicTask4 cfg) n (task4_init mid0) =
     Inr (replicate n [Printf ''Element found\<newline>'' [], VTaskDelay (166 div portTICK_PERIOD_MS cfg)],
          if n = 0 then task4_init mid0 else (task4_init mid0)\<lparr>mid := 24, found := 1\<rparr>)"
  by (rule iterations_after_first [OF vPeriodicTask4_first [OF assms] vPeriodicTask4_later [OF assms]])

lemma iterations_aperiodic:
  assumes "portTICK_PERIOD_MS cfg \<noteq> 0"
  shows "iterations (aperiodicTask1 cfg) n () =
     Inr (replicate n [VTaskDelay (50 div portTICK_PERIOD_MS cfg),
                       Printf ''Aperiodic task 1 finished\<newline>'' []], ())"
  using assms
  by (intro iterations_steady) (simp add: aperiodicTask1_def APERIODIC_TASK_DELAY_MS_def ms_to_ticks_def)

lemma timeline_replicate:
  assumes "work_then_delay d cs"
  shows "spaced d (timeline pc k t (replicate n cs))"
proof -
  from assms obtain fmt args where cs: "cs = [Printf fmt args, VTaskDelay d]"
    by (elim work_then_delay.elims) simp_all
  show ?thesis
  proof (induction n arbitrary: k t)
    case 0
    then show ?case by simp
  next
    case (Suc n)
    show ?case
    proof (cases n)
      case 0
      then show ?thesis by simp
    next
      case (Suc m)
      have "spaced d (timeline pc (k + 2) (clock pc k t cs) (replicate n cs))"
        using Suc.IH cs by simp
      with Suc cs show ?thesis
        by (simp add: upt_rec [of k] upt_rec [of "Suc k"] )
    qed
  qed
qed

lemma periodic_wrapper_replicate:
  assumes "period = Inr d" and "iterations body n init = Inr (replicate n cs, s)"
    and "work_then_delay d cs"
  shows "periodic_wrapper body init period n pc t0"
  using assms
  by (simp add: periodic_wrapper_def list_all_length timeline_replicate)

lemma leaves_queue_alone_replicate:
  assumes "iterations body n init = Inr (replicate n cs, s)" and "\<not> list_ex queue_access cs"
  shows "leaves_queue_alone body init n"
  using assms
  by (auto simp: leaves_queue_alone_def list_ex_iff)

lemma ceil_log: "\<lceil>log 2 50\<rceil> + 1 = (7::int)"
proof -
  have "5 < log 2 50" by (simp add: less_log_iff)
  moreover have "log 2 50 \<le> 6" by (simp add: log_le_iff)
  ultimately have "\<lceil>log 2 50\<rceil> = (6::int)" by (intro ceiling_unique) simp_all
  then show ?thesis by simp
qed

subsection \<open>The period macros\<close>

lemma ms_to_ticks_eq_iff:
  assumes "0 < ms"
  shows "ms_to_ticks ms p = Inr ms \<longleftrightarrow> p = 1"
proof
  assume a: "ms_to_ticks ms p = Inr ms"
  then have p0: "p \<noteq> 0" and d: "ms div p = ms"
    by (auto simp: ms_to_ticks_def split: if_splits)
  show "p = 1"
  proof (rule ccontr)
    assume "p \<noteq> 1"
    with p0 have "1 < p" by simp
    with assms have "ms div p < ms" by simp
    with d show False by simp
  qed
next
  assume "p = 1"
  then show "ms_to_ticks ms p = Inr ms" by (simp add: ms_to_ticks_def)
qed

lemma ms_to_ticks_positive_iff:
  "(\<exists>d. ms_to_ticks ms p = Inr d \<and> 0 < d) \<longleftrightarrow> 1 \<le> p \<and> p \<le> ms"
  by (auto simp: ms_to_ticks_def div_greater_zero_iff)

lemma list_all_work_then_delay_replicate:
  "list_all (work_then_delay d) (replicate n [Printf fmt args, VTaskDelay d])"
  by (simp add: list_all_length)

section \<open>Unit C: the product\<close>

text \<open>
  C1. The claim: every iteration of \<^verbatim>\<open>vPeriodicTask3\<close> prints
  9876543210 * 1234567890 = 12193263111263526900, and the product fits the integer type
  of the code. The code does not do this. The product is larger than \<open>LONG_MAX\<close>, so the
  multiplication in \<^verbatim>\<open>long int\<close> overflows, and what \<^verbatim>\<open>%ld\<close> prints in every
  iteration is the product minus \<open>2 ^ 64\<close>, which is - 6253480962446024716. The theorem
  evaluates the first \<open>n\<close> iterations, for every \<open>n\<close>, at one tick per millisecond.
\<close>

theorem vPeriodicTask3_overflows:
  "iterations
     (vPeriodicTask3 \<lparr>tskIDLE_PRIORITY = 0, configMINIMAL_STACK_SIZE = 64, portTICK_PERIOD_MS = 1\<rparr>)
     n task3_init =
     Inr (replicate n [Printf ''Result: %ld\<newline>'' [Long (- 6253480962446024716)], VTaskDelay 186],
          if n = 0 then task3_init else task3_init\<lparr>result := 12193263111263526900\<rparr>)
   \<and> uint (num1 task3_init) * uint (num2 task3_init) = 12193263111263526900
   \<and> LONG_MAX < uint (num1 task3_init) * uint (num2 task3_init)
   \<and> (- 6253480962446024716 :: int) = 12193263111263526900 - 2 ^ 64"
proof -
  have ne: "portTICK_PERIOD_MS \<lparr>tskIDLE_PRIORITY = 0, configMINIMAL_STACK_SIZE = 64,
    portTICK_PERIOD_MS = 1\<rparr> \<noteq> 0" by simp
  have "sint (num1 task3_init * num2 task3_init) = - 6253480962446024716"
    "num1 task3_init * num2 task3_init = 12193263111263526900"
    by (simp_all add: task3_init_def)
  with iterations_task3 [OF ne, of n] show ?thesis
    by (simp add: task3_init_def LONG_MAX_def)
qed

section \<open>Startup\<close>




section \<open>Priorities and periods\<close>

text \<open>
  C5. The priorities the five \<^verbatim>\<open>xTaskCreate\<close> calls pass are the macros
  \<^verbatim>\<open>TASK1_PRIORITY\<close> to \<^verbatim>\<open>APERIODIC_TASK_PRIORITY\<close>, in this order; they increase
  strictly from Task1 to the aperiodic task, and no two are equal. This holds for every
  value of \<^verbatim>\<open>tskIDLE_PRIORITY\<close>. The calls are made once the queue exists. What the
  kernel does with a priority above its configured maximum is outside the file.
\<close>

theorem priorities_strict_total_order:
  assumes "queue_fits r"
  shows "map (\<lambda>d. (pxTaskCode d, uxPriority d)) (create_requests (trace (ipsa_sched cfg r))) =
           [(VPeriodicTask1, TASK1_PRIORITY cfg), (VPeriodicTask2, TASK2_PRIORITY cfg),
            (VPeriodicTask3, TASK3_PRIORITY cfg), (VPeriodicTask4, TASK4_PRIORITY cfg),
            (AperiodicTask1, APERIODIC_TASK_PRIORITY cfg)]
         \<and> TASK1_PRIORITY cfg < TASK2_PRIORITY cfg
         \<and> TASK2_PRIORITY cfg < TASK3_PRIORITY cfg
         \<and> TASK3_PRIORITY cfg < TASK4_PRIORITY cfg
         \<and> TASK4_PRIORITY cfg < APERIODIC_TASK_PRIORITY cfg
         \<and> distinct [TASK1_PRIORITY cfg, TASK2_PRIORITY cfg, TASK3_PRIORITY cfg,
                      TASK4_PRIORITY cfg, APERIODIC_TASK_PRIORITY cfg]"
  using assms
  by (simp add: trace_ipsa_sched TASK1_PRIORITY_def TASK2_PRIORITY_def
      TASK3_PRIORITY_def TASK4_PRIORITY_def APERIODIC_TASK_PRIORITY_def)

text \<open>C5, witness: with idle priority 0 the five priorities are 1 to 5.\<close>

theorem priorities_strict_total_order_witness:
  "queue_fits \<lparr>queue_fits = True, task_fits = (\<lambda>c. True), scheduler_fits = True\<rparr>
   \<and> map (\<lambda>d. (pxTaskCode d, uxPriority d)) (create_requests (trace (ipsa_sched
         \<lparr>tskIDLE_PRIORITY = 0, configMINIMAL_STACK_SIZE = 64, portTICK_PERIOD_MS = 1\<rparr>
         \<lparr>queue_fits = True, task_fits = (\<lambda>c. True), scheduler_fits = True\<rparr>))) =
       [(VPeriodicTask1, 1), (VPeriodicTask2, 2), (VPeriodicTask3, 3), (VPeriodicTask4, 4),
        (AperiodicTask1, 5)]"
  using priorities_strict_total_order
    [of "\<lparr>queue_fits = True, task_fits = (\<lambda>c. True), scheduler_fits = True\<rparr>"
        "\<lparr>tskIDLE_PRIORITY = 0, configMINIMAL_STACK_SIZE = 64, portTICK_PERIOD_MS = 1\<rparr>"]
  by (simp add: TASK1_PRIORITY_def TASK2_PRIORITY_def TASK3_PRIORITY_def TASK4_PRIORITY_def
      APERIODIC_TASK_PRIORITY_def)

text \<open>
  C6, as stated: the periods are 166, 170, 186 and 166 ticks and the delay of the
  aperiodic task is 50 ticks, each greater than zero. The numbers of the file are
  milliseconds, which every macro divides by \<^verbatim>\<open>portTICK_PERIOD_MS\<close>. With a tick of
  10 ms the five durations are 16, 17, 18, 16 and 5 ticks, and \<^verbatim>\<open>vPeriodicTask1\<close> delays
  for 16; with a tick of 200 ms they are 0, and \<^verbatim>\<open>aperiodicTask1\<close> delays for 0 ticks.
\<close>

theorem periods_at_coarser_ticks_counterexample:
  "TASK1_PERIOD_MS \<lparr>tskIDLE_PRIORITY = 0, configMINIMAL_STACK_SIZE = 64, portTICK_PERIOD_MS = 10\<rparr> = Inr 16
   \<and> TASK2_PERIOD_MS \<lparr>tskIDLE_PRIORITY = 0, configMINIMAL_STACK_SIZE = 64, portTICK_PERIOD_MS = 10\<rparr> = Inr 17
   \<and> TASK3_PERIOD_MS \<lparr>tskIDLE_PRIORITY = 0, configMINIMAL_STACK_SIZE = 64, portTICK_PERIOD_MS = 10\<rparr> = Inr 18
   \<and> TASK4_PERIOD_MS \<lparr>tskIDLE_PRIORITY = 0, configMINIMAL_STACK_SIZE = 64, portTICK_PERIOD_MS = 10\<rparr> = Inr 16
   \<and> APERIODIC_TASK_DELAY_MS \<lparr>tskIDLE_PRIORITY = 0, configMINIMAL_STACK_SIZE = 64, portTICK_PERIOD_MS = 10\<rparr> = Inr 5
   \<and> vPeriodicTask1 \<lparr>tskIDLE_PRIORITY = 0, configMINIMAL_STACK_SIZE = 64, portTICK_PERIOD_MS = 10\<rparr> ()
       = Inr ([Printf ''Working 1\<newline>'' [], VTaskDelay 16], ())
   \<and> TASK1_PERIOD_MS \<lparr>tskIDLE_PRIORITY = 0, configMINIMAL_STACK_SIZE = 64, portTICK_PERIOD_MS = 10\<rparr> \<noteq> Inr 166
   \<and> TASK1_PERIOD_MS \<lparr>tskIDLE_PRIORITY = 0, configMINIMAL_STACK_SIZE = 64, portTICK_PERIOD_MS = 200\<rparr> = Inr 0
   \<and> APERIODIC_TASK_DELAY_MS \<lparr>tskIDLE_PRIORITY = 0, configMINIMAL_STACK_SIZE = 64, portTICK_PERIOD_MS = 200\<rparr> = Inr 0
   \<and> aperiodicTask1 \<lparr>tskIDLE_PRIORITY = 0, configMINIMAL_STACK_SIZE = 64, portTICK_PERIOD_MS = 200\<rparr> ()
       = Inr ([VTaskDelay 0, Printf ''Aperiodic task 1 finished\<newline>'' []], ())"
  by (simp add: TASK1_PERIOD_MS_def TASK2_PERIOD_MS_def TASK3_PERIOD_MS_def TASK4_PERIOD_MS_def
      APERIODIC_TASK_DELAY_MS_def ms_to_ticks_def vPeriodicTask1_def aperiodicTask1_def)

text \<open>
  C6, amended. Where \<^verbatim>\<open>portTICK_PERIOD_MS\<close> is not zero, the period in ticks of Task1 is
  166 divided by it, of Task2 170, of Task3 186 and of Task4 166 divided by it, and the
  delay of the aperiodic task is 50 divided by it, in whole ticks; in every iteration each
  of the five tasks passes its own duration to \<^verbatim>\<open>vTaskDelay\<close>. The five durations are
  166, 170, 186, 166 and 50 ticks exactly when \<^verbatim>\<open>portTICK_PERIOD_MS\<close> is 1, and all of
  them are greater than zero exactly when it lies between 1 and 50.
\<close>

theorem periods_are_milliseconds_over_tick:
  "(portTICK_PERIOD_MS cfg \<noteq> 0 \<longrightarrow>
      TASK1_PERIOD_MS cfg = Inr (166 div portTICK_PERIOD_MS cfg)
      \<and> TASK2_PERIOD_MS cfg = Inr (170 div portTICK_PERIOD_MS cfg)
      \<and> TASK3_PERIOD_MS cfg = Inr (186 div portTICK_PERIOD_MS cfg)
      \<and> TASK4_PERIOD_MS cfg = Inr (166 div portTICK_PERIOD_MS cfg)
      \<and> APERIODIC_TASK_DELAY_MS cfg = Inr (50 div portTICK_PERIOD_MS cfg)
      \<and> (\<exists>css s. iterations (vPeriodicTask1 cfg) n () = Inr (css, s) \<and> length css = n
            \<and> list_all (work_then_delay (166 div portTICK_PERIOD_MS cfg)) css)
      \<and> (\<exists>css s. iterations (vPeriodicTask2 cfg) n task2_init = Inr (css, s) \<and> length css = n
            \<and> list_all (work_then_delay (170 div portTICK_PERIOD_MS cfg)) css)
      \<and> (\<exists>css s. iterations (vPeriodicTask3 cfg) n task3_init = Inr (css, s) \<and> length css = n
            \<and> list_all (work_then_delay (186 div portTICK_PERIOD_MS cfg)) css)
      \<and> (\<exists>css s. iterations (vPeriodicTask4 cfg) n (task4_init mid0) = Inr (css, s)
            \<and> length css = n
            \<and> list_all (work_then_delay (166 div portTICK_PERIOD_MS cfg)) css)
      \<and> iterations (aperiodicTask1 cfg) n () =
          Inr (replicate n [VTaskDelay (50 div portTICK_PERIOD_MS cfg),
                            Printf ''Aperiodic task 1 finished\<newline>'' []], ()))
   \<and> ((TASK1_PERIOD_MS cfg = Inr 166 \<and> TASK2_PERIOD_MS cfg = Inr 170
        \<and> TASK3_PERIOD_MS cfg = Inr 186 \<and> TASK4_PERIOD_MS cfg = Inr 166
        \<and> APERIODIC_TASK_DELAY_MS cfg = Inr 50) \<longleftrightarrow> portTICK_PERIOD_MS cfg = 1)
   \<and> (((\<exists>d. TASK1_PERIOD_MS cfg = Inr d \<and> 0 < d) \<and> (\<exists>d. TASK2_PERIOD_MS cfg = Inr d \<and> 0 < d)
        \<and> (\<exists>d. TASK3_PERIOD_MS cfg = Inr d \<and> 0 < d) \<and> (\<exists>d. TASK4_PERIOD_MS cfg = Inr d \<and> 0 < d)
        \<and> (\<exists>d. APERIODIC_TASK_DELAY_MS cfg = Inr d \<and> 0 < d))
       \<longleftrightarrow> 1 \<le> portTICK_PERIOD_MS cfg \<and> portTICK_PERIOD_MS cfg \<le> 50)"
proof -
  let ?p = "portTICK_PERIOD_MS cfg"
  have tasks: "TASK1_PERIOD_MS cfg = Inr (166 div ?p)
      \<and> TASK2_PERIOD_MS cfg = Inr (170 div ?p)
      \<and> TASK3_PERIOD_MS cfg = Inr (186 div ?p)
      \<and> TASK4_PERIOD_MS cfg = Inr (166 div ?p)
      \<and> APERIODIC_TASK_DELAY_MS cfg = Inr (50 div ?p)
      \<and> (\<exists>css s. iterations (vPeriodicTask1 cfg) n () = Inr (css, s) \<and> length css = n
            \<and> list_all (work_then_delay (166 div ?p)) css)
      \<and> (\<exists>css s. iterations (vPeriodicTask2 cfg) n task2_init = Inr (css, s) \<and> length css = n
            \<and> list_all (work_then_delay (170 div ?p)) css)
      \<and> (\<exists>css s. iterations (vPeriodicTask3 cfg) n task3_init = Inr (css, s) \<and> length css = n
            \<and> list_all (work_then_delay (186 div ?p)) css)
      \<and> (\<exists>css s. iterations (vPeriodicTask4 cfg) n (task4_init mid0) = Inr (css, s)
            \<and> length css = n
            \<and> list_all (work_then_delay (166 div ?p)) css)
      \<and> iterations (aperiodicTask1 cfg) n () =
          Inr (replicate n [VTaskDelay (50 div ?p),
                            Printf ''Aperiodic task 1 finished\<newline>'' []], ())"
    if ne: "?p \<noteq> 0"
  proof -
    from ne have macros: "TASK1_PERIOD_MS cfg = Inr (166 div ?p)"
      "TASK2_PERIOD_MS cfg = Inr (170 div ?p)" "TASK3_PERIOD_MS cfg = Inr (186 div ?p)"
      "TASK4_PERIOD_MS cfg = Inr (166 div ?p)" "APERIODIC_TASK_DELAY_MS cfg = Inr (50 div ?p)"
      by (simp_all add: TASK1_PERIOD_MS_def TASK2_PERIOD_MS_def TASK3_PERIOD_MS_def
          TASK4_PERIOD_MS_def APERIODIC_TASK_DELAY_MS_def ms_to_ticks_def)
    have t1: "\<exists>css s. iterations (vPeriodicTask1 cfg) n () = Inr (css, s) \<and> length css = n
            \<and> list_all (work_then_delay (166 div ?p)) css"
      unfolding iterations_task1 [OF ne]
      by (simp add: list_all_work_then_delay_replicate)
    have t2: "\<exists>css s. iterations (vPeriodicTask2 cfg) n task2_init = Inr (css, s) \<and> length css = n
            \<and> list_all (work_then_delay (170 div ?p)) css"
      unfolding iterations_task2 [OF ne]
      by (simp add: list_all_work_then_delay_replicate)
    have t3: "\<exists>css s. iterations (vPeriodicTask3 cfg) n task3_init = Inr (css, s) \<and> length css = n
            \<and> list_all (work_then_delay (186 div ?p)) css"
      unfolding iterations_task3 [OF ne]
      by (simp add: list_all_work_then_delay_replicate)
    have t4: "\<exists>css s. iterations (vPeriodicTask4 cfg) n (task4_init mid0) = Inr (css, s)
            \<and> length css = n
            \<and> list_all (work_then_delay (166 div ?p)) css"
      unfolding iterations_task4 [OF ne]
      by (simp add: list_all_work_then_delay_replicate)
    from macros t1 t2 t3 t4 iterations_aperiodic [OF ne, of n] show ?thesis
      by blast
  qed
  have equal: "(TASK1_PERIOD_MS cfg = Inr 166 \<and> TASK2_PERIOD_MS cfg = Inr 170
        \<and> TASK3_PERIOD_MS cfg = Inr 186 \<and> TASK4_PERIOD_MS cfg = Inr 166
        \<and> APERIODIC_TASK_DELAY_MS cfg = Inr 50) \<longleftrightarrow> ?p = 1"
    by (simp add: TASK1_PERIOD_MS_def TASK2_PERIOD_MS_def TASK3_PERIOD_MS_def
        TASK4_PERIOD_MS_def APERIODIC_TASK_DELAY_MS_def ms_to_ticks_eq_iff)
  have positive: "((\<exists>d. TASK1_PERIOD_MS cfg = Inr d \<and> 0 < d) \<and> (\<exists>d. TASK2_PERIOD_MS cfg = Inr d \<and> 0 < d)
        \<and> (\<exists>d. TASK3_PERIOD_MS cfg = Inr d \<and> 0 < d) \<and> (\<exists>d. TASK4_PERIOD_MS cfg = Inr d \<and> 0 < d)
        \<and> (\<exists>d. APERIODIC_TASK_DELAY_MS cfg = Inr d \<and> 0 < d))
       \<longleftrightarrow> 1 \<le> ?p \<and> ?p \<le> 50"
    unfolding TASK1_PERIOD_MS_def TASK2_PERIOD_MS_def TASK3_PERIOD_MS_def
        TASK4_PERIOD_MS_def APERIODIC_TASK_DELAY_MS_def ms_to_ticks_positive_iff
    by auto
  from tasks equal positive show ?thesis by blast
qed

text \<open>
  C6, witness: at one tick per millisecond the durations are the numbers of the file, and
  the aperiodic task delays for 50 ticks in each of two iterations; at 50 ms per tick
  its delay is still positive.
\<close>

theorem periods_are_milliseconds_over_tick_witness:
  "portTICK_PERIOD_MS \<lparr>tskIDLE_PRIORITY = 0, configMINIMAL_STACK_SIZE = 64, portTICK_PERIOD_MS = 1\<rparr> \<noteq> 0
   \<and> portTICK_PERIOD_MS \<lparr>tskIDLE_PRIORITY = 0, configMINIMAL_STACK_SIZE = 64, portTICK_PERIOD_MS = 1\<rparr> = 1
   \<and> TASK1_PERIOD_MS \<lparr>tskIDLE_PRIORITY = 0, configMINIMAL_STACK_SIZE = 64, portTICK_PERIOD_MS = 1\<rparr> = Inr 166
   \<and> TASK2_PERIOD_MS \<lparr>tskIDLE_PRIORITY = 0, configMINIMAL_STACK_SIZE = 64, portTICK_PERIOD_MS = 1\<rparr> = Inr 170
   \<and> TASK3_PERIOD_MS \<lparr>tskIDLE_PRIORITY = 0, configMINIMAL_STACK_SIZE = 64, portTICK_PERIOD_MS = 1\<rparr> = Inr 186
   \<and> TASK4_PERIOD_MS \<lparr>tskIDLE_PRIORITY = 0, configMINIMAL_STACK_SIZE = 64, portTICK_PERIOD_MS = 1\<rparr> = Inr 166
   \<and> APERIODIC_TASK_DELAY_MS \<lparr>tskIDLE_PRIORITY = 0, configMINIMAL_STACK_SIZE = 64, portTICK_PERIOD_MS = 1\<rparr> = Inr 50
   \<and> iterations
        (aperiodicTask1 \<lparr>tskIDLE_PRIORITY = 0, configMINIMAL_STACK_SIZE = 64, portTICK_PERIOD_MS = 1\<rparr>)
        2 ()
       = Inr ([[VTaskDelay 50, Printf ''Aperiodic task 1 finished\<newline>'' []],
               [VTaskDelay 50, Printf ''Aperiodic task 1 finished\<newline>'' []]], ())
   \<and> (1::nat) \<le> 50
   \<and> (\<exists>d. APERIODIC_TASK_DELAY_MS
          \<lparr>tskIDLE_PRIORITY = 0, configMINIMAL_STACK_SIZE = 64, portTICK_PERIOD_MS = 50\<rparr> = Inr d
          \<and> 0 < d)"
proof -
  let ?cfg = "\<lparr>tskIDLE_PRIORITY = 0, configMINIMAL_STACK_SIZE = 64, portTICK_PERIOD_MS = 1\<rparr>"
  let ?cfg50 = "\<lparr>tskIDLE_PRIORITY = 0, configMINIMAL_STACK_SIZE = 64, portTICK_PERIOD_MS = 50\<rparr>"
  have one: "portTICK_PERIOD_MS ?cfg = 1" by simp
  have r2: "replicate 2 c = [c, c]" for c :: "call list"
    by (simp add: numeral_2_eq_2)
  note a = periods_are_milliseconds_over_tick [of ?cfg 2 0]
  from a one have eq: "TASK1_PERIOD_MS ?cfg = Inr 166 \<and> TASK2_PERIOD_MS ?cfg = Inr 170
        \<and> TASK3_PERIOD_MS ?cfg = Inr 186 \<and> TASK4_PERIOD_MS ?cfg = Inr 166
        \<and> APERIODIC_TASK_DELAY_MS ?cfg = Inr 50"
    by blast
  from a have ap: "iterations (aperiodicTask1 ?cfg) 2 ()
       = Inr ([[VTaskDelay 50, Printf ''Aperiodic task 1 finished\<newline>'' []],
               [VTaskDelay 50, Printf ''Aperiodic task 1 finished\<newline>'' []]], ())"
    by (simp add: r2)
  have "1 \<le> portTICK_PERIOD_MS ?cfg50 \<and> portTICK_PERIOD_MS ?cfg50 \<le> 50" by simp
  with periods_are_milliseconds_over_tick [of ?cfg50 0 0]
  have pos: "\<exists>d. APERIODIC_TASK_DELAY_MS ?cfg50 = Inr d \<and> 0 < d"
    by blast
  from eq ap pos show ?thesis by simp
qed

section \<open>Unit D: the search\<close>

text \<open>
  C3. In every iteration of \<^verbatim>\<open>vPeriodicTask4\<close> the search reports that the element is
  found: the first \<open>n\<close> iterations print this, for every \<open>n\<close>, and from the variables
  \<open>s\<close> they leave the next search finds the target again, with one probe. A probe that
  does not leave the loop narrows the range strictly. Whatever the array holds and
  whatever the target is, a search over at most 50 candidates makes at most
  \<open>\<lceil>log 2 50\<rceil> + 1\<close> probes.
\<close>

theorem unit_d_finds_25_every_iteration:
  assumes "portTICK_PERIOD_MS cfg \<noteq> 0"
  shows "(\<exists>s. iterations (vPeriodicTask4 cfg) n (task4_init mid0) =
              Inr (replicate n [Printf ''Element found\<newline>'' [],
                                VTaskDelay (166 div portTICK_PERIOD_MS cfg)], s)
            \<and> (\<exists>s'. search_loop s = Inr s' \<and> found s' = 1)
            \<and> length (search_probes s) = 1
            \<and> int (length (search_probes s)) \<le> \<lceil>log 2 50\<rceil> + 1)
       \<and> (\<forall>u p u'. low u \<le> high u \<and> midpoint u = Inr p \<and> probe p = Inr (False, u') \<longrightarrow>
             low u \<le> low u' \<and> high u' \<le> high u \<and> high u' - low u' < high u - low u)
       \<and> (\<forall>u. high u - low u < 50 \<longrightarrow> int (length (search_probes u)) \<le> \<lceil>log 2 50\<rceil> + 1)"
proof -
  let ?s0 = "task4_init mid0" and ?s1 = "(task4_init mid0)\<lparr>mid := 24, found := 1\<rparr>"
  let ?s = "if n = 0 then ?s0 else ?s1"
  have run: "search_loop ?s = Inr ?s1" "length (search_probes ?s) = 1"
    by (simp_all add: search_loop_def search_probes_def search_run_task4_first
        search_run_task4_later)
  have "found ?s1 = 1" by simp
  with run iterations_task4 [OF assms, of n mid0]
  have first: "\<exists>s. iterations (vPeriodicTask4 cfg) n (task4_init mid0) =
              Inr (replicate n [Printf ''Element found\<newline>'' [],
                                VTaskDelay (166 div portTICK_PERIOD_MS cfg)], s)
            \<and> (\<exists>s'. search_loop s = Inr s' \<and> found s' = 1)
            \<and> length (search_probes s) = 1
            \<and> int (length (search_probes s)) \<le> \<lceil>log 2 50\<rceil> + 1"
    by (intro exI [of _ ?s]) (simp only: ceil_log, simp)
  have narrow: "low u \<le> low u' \<and> high u' \<le> high u \<and> high u' - low u' < high u - low u"
    if "low u \<le> high u \<and> midpoint u = Inr p \<and> probe p = Inr (False, u')" for u p u'
    using step_narrows [of u p u'] that by simp
  have bound: "int (length (search_probes u)) \<le> \<lceil>log 2 50\<rceil> + 1" if "high u - low u < 50" for u
  proof -
    from that have "high u - low u + 1 < 2 ^ 6" by simp
    then have "length (fst (search_run u)) \<le> 6" by (rule probes_logarithmic)
    then show ?thesis by (simp add: search_probes_def ceil_log)
  qed
  from first narrow bound show ?thesis by blast
qed

text \<open>
  C3, witness: two iterations at one tick per millisecond; a probe of the same array for
  the target 30, which continues and narrows the range from 0..49 to 25..49; and the
  search for 50, which takes six probes.
\<close>

theorem unit_d_finds_25_every_iteration_witness:
  "portTICK_PERIOD_MS \<lparr>tskIDLE_PRIORITY = 0, configMINIMAL_STACK_SIZE = 64, portTICK_PERIOD_MS = 1\<rparr> \<noteq> 0
   \<and> iterations
        (vPeriodicTask4 \<lparr>tskIDLE_PRIORITY = 0, configMINIMAL_STACK_SIZE = 64, portTICK_PERIOD_MS = 1\<rparr>)
        2 (task4_init 0)
       = Inr ([[Printf ''Element found\<newline>'' [], VTaskDelay 166],
               [Printf ''Element found\<newline>'' [], VTaskDelay 166]],
              (task4_init 0)\<lparr>mid := 24, found := 1\<rparr>)
   \<and> low ((task4_init 0)\<lparr>element_to_find := 30\<rparr>) \<le> high ((task4_init 0)\<lparr>element_to_find := 30\<rparr>)
   \<and> midpoint ((task4_init 0)\<lparr>element_to_find := 30\<rparr>)
       = Inr ((task4_init 0)\<lparr>element_to_find := 30, mid := 24\<rparr>)
   \<and> probe ((task4_init 0)\<lparr>element_to_find := 30, mid := 24\<rparr>)
       = Inr (False, (task4_init 0)\<lparr>element_to_find := 30, mid := 24, low := 25\<rparr>)
   \<and> high ((task4_init 0)\<lparr>element_to_find := 30, mid := 24, low := 25\<rparr>)
        - low ((task4_init 0)\<lparr>element_to_find := 30, mid := 24, low := 25\<rparr>)
       < high ((task4_init 0)\<lparr>element_to_find := 30\<rparr>) - low ((task4_init 0)\<lparr>element_to_find := 30\<rparr>)
   \<and> high ((task4_init 0)\<lparr>element_to_find := 50\<rparr>) - low ((task4_init 0)\<lparr>element_to_find := 50\<rparr>) < 50
   \<and> length (search_probes ((task4_init 0)\<lparr>element_to_find := 50\<rparr>)) = 6"
proof -
  let ?cfg = "\<lparr>tskIDLE_PRIORITY = 0, configMINIMAL_STACK_SIZE = 64, portTICK_PERIOD_MS = 1\<rparr>"
  let ?u = "(task4_init 0)\<lparr>element_to_find := 30\<rparr>"
  let ?p = "(task4_init 0)\<lparr>element_to_find := 30, mid := 24\<rparr>"
  let ?u' = "(task4_init 0)\<lparr>element_to_find := 30, mid := 24, low := 25\<rparr>"
  have ne: "portTICK_PERIOD_MS ?cfg \<noteq> 0" by simp
  note main = unit_d_finds_25_every_iteration [OF ne, of 2 0]
  have r2: "replicate 2 c = [c, c]" for c :: "call list"
    by (simp add: numeral_2_eq_2)
  have it: "iterations (vPeriodicTask4 ?cfg) 2 (task4_init 0)
       = Inr ([[Printf ''Element found\<newline>'' [], VTaskDelay 166],
               [Printf ''Element found\<newline>'' [], VTaskDelay 166]],
              (task4_init 0)\<lparr>mid := 24, found := 1\<rparr>)"
    using iterations_task4 [OF ne, of 2 0] by (simp add: r2)
  have m: "midpoint ?u = Inr ?p"
    by (simp add: task4_init_def midpoint_def int_result_def INT_MAX_def INT_MIN_def
        signed_divide_int_def)
  have pr: "probe ?p = Inr (False, ?u')"
    by (simp add: task4_init_def probe_def subscript_def int_result_def INT_MAX_def INT_MIN_def)
  have g: "low ?u \<le> high ?u" by (simp add: task4_init_def)
  from main g m pr have "high ?u' - low ?u' < high ?u - low ?u"
    by blast
  moreover have "length (search_probes ((task4_init 0)\<lparr>element_to_find := 50\<rparr>)) = 6"
    by (simp add: search_probes_def search_run.simps task4_init_def midpoint_def probe_def
        int_result_def subscript_def INT_MAX_def INT_MIN_def signed_divide_int_def)
  moreover have "high ((task4_init 0)\<lparr>element_to_find := 50\<rparr>)
      - low ((task4_init 0)\<lparr>element_to_find := 50\<rparr>) < 50"
    by (simp add: task4_init_def)
  ultimately show ?thesis using ne it g m pr by simp
qed

text \<open>
  C10. At the start of every iteration of \<^verbatim>\<open>vPeriodicTask4\<close> the array has 50 elements
  and the bounds are 0 and 49. From such variables, whatever the array holds and whatever
  the target is, the loop ends without a fault, and at every evaluation of \<^verbatim>\<open>list[mid]\<close>
  the variables satisfy 0 \<open>\<le>\<close> low \<open>\<le>\<close> mid \<open>\<le>\<close> high \<open>\<le>\<close> 49, the sum low + high is within
  \<^verbatim>\<open>int\<close>, and the subscript is inside the array.
\<close>

theorem unit_d_subscripts_in_bounds:
  assumes "portTICK_PERIOD_MS cfg \<noteq> 0"
  shows "(\<exists>css s. iterations (vPeriodicTask4 cfg) n (task4_init mid0) = Inr (css, s)
            \<and> length (list_arr s) = 50 \<and> low s = 0 \<and> high s = 49)
       \<and> (\<forall>s. length (list_arr s) = 50 \<and> low s = 0 \<and> high s = 49 \<longrightarrow>
            (\<exists>s'. search_loop s = Inr s') \<and>
            (\<forall>p \<in> set (search_probes s).
               0 \<le> low p \<and> low p \<le> mid p \<and> mid p \<le> high p \<and> high p \<le> 49
               \<and> mid p = (low p + high p) div 2
               \<and> int_result (low p + high p) = Inr (low p + high p)
               \<and> subscript (list_arr p) (mid p) = Inr (list_arr p ! nat (mid p))))"
proof -
  have "\<exists>css s. iterations (vPeriodicTask4 cfg) n (task4_init mid0) = Inr (css, s)
            \<and> length (list_arr s) = 50 \<and> low s = 0 \<and> high s = 49"
    unfolding iterations_task4 [OF assms]
    by (simp add: task4_init_def)
  moreover have "(\<exists>s'. search_loop s = Inr s') \<and>
            (\<forall>p \<in> set (search_probes s).
               0 \<le> low p \<and> low p \<le> mid p \<and> mid p \<le> high p \<and> high p \<le> 49
               \<and> mid p = (low p + high p) div 2
               \<and> int_result (low p + high p) = Inr (low p + high p)
               \<and> subscript (list_arr p) (mid p) = Inr (list_arr p ! nat (mid p)))"
    if a: "length (list_arr s) = 50 \<and> low s = 0 \<and> high s = 49" for s
  proof -
    from a have pre: "0 \<le> low s" "high s < int (length (list_arr s))"
      "int (length (list_arr s)) \<le> 2 ^ 30" by simp_all
    note safe = search_run_safe [OF pre]
    from safe have "\<exists>s'. search_loop s = Inr s'" by (simp add: search_loop_def)
    moreover have "0 \<le> low p \<and> low p \<le> mid p \<and> mid p \<le> high p \<and> high p \<le> 49
               \<and> mid p = (low p + high p) div 2
               \<and> int_result (low p + high p) = Inr (low p + high p)
               \<and> subscript (list_arr p) (mid p) = Inr (list_arr p ! nat (mid p))"
      if "p \<in> set (search_probes s)" for p
    proof -
      from that have "p \<in> set (fst (search_run s))"
        by (simp add: search_probes_def)
      with safe have f: "list_arr p = list_arr s" "low s \<le> low p" "low p \<le> mid p"
        "mid p \<le> high p" "high p \<le> high s" "low p + high p \<le> INT_MAX"
        "mid p = (low p + high p) div 2"
        by blast+
      with a show ?thesis
        by (simp add: int_result_def subscript_def INT_MIN_def)
    qed
    ultimately show ?thesis by blast
  qed
  ultimately show ?thesis by blast
qed

text \<open>C10, witness: the one probe of the task's own search, at index 24, reads 25.\<close>

theorem unit_d_subscripts_in_bounds_witness:
  "portTICK_PERIOD_MS \<lparr>tskIDLE_PRIORITY = 0, configMINIMAL_STACK_SIZE = 64, portTICK_PERIOD_MS = 1\<rparr> \<noteq> 0
   \<and> length (list_arr (task4_init 0)) = 50 \<and> low (task4_init 0) = 0 \<and> high (task4_init 0) = 49
   \<and> search_probes (task4_init 0) = [(task4_init 0)\<lparr>mid := 24\<rparr>]
   \<and> subscript (list_arr ((task4_init 0)\<lparr>mid := 24\<rparr>)) (mid ((task4_init 0)\<lparr>mid := 24\<rparr>)) = Inr 25"
proof -
  let ?cfg = "\<lparr>tskIDLE_PRIORITY = 0, configMINIMAL_STACK_SIZE = 64, portTICK_PERIOD_MS = 1\<rparr>"
  have ne: "portTICK_PERIOD_MS ?cfg \<noteq> 0" by simp
  have a: "length (list_arr (task4_init 0)) = 50 \<and> low (task4_init 0) = 0 \<and> high (task4_init 0) = 49"
    by (simp add: task4_init_def)
  have pr: "search_probes (task4_init 0) = [(task4_init 0)\<lparr>mid := 24\<rparr>]"
    by (simp add: search_probes_def search_run_task4_first)
  from unit_d_subscripts_in_bounds [OF ne, of 0 0] a
  have "\<forall>p \<in> set (search_probes (task4_init 0)).
          subscript (list_arr p) (mid p) = Inr (list_arr p ! nat (mid p))"
    by blast
  with pr have "subscript (list_arr ((task4_init 0)\<lparr>mid := 24\<rparr>)) (mid ((task4_init 0)\<lparr>mid := 24\<rparr>))
      = Inr (list_arr ((task4_init 0)\<lparr>mid := 24\<rparr>) ! nat (mid ((task4_init 0)\<lparr>mid := 24\<rparr>)))"
    by simp
  also have "\<dots> = Inr 25" by (simp add: task4_init_def)
  finally show ?thesis using ne a pr by simp
qed

text \<open>
  C8, as stated: for an arbitrary sorted array and an arbitrary target the search reports
  found exactly when the target is present, and a miss leaves low above high. With
  \<^verbatim>\<open>int\<close> bounds this fails for arrays of more than \<open>2 ^ 30\<close> elements: on
  \<open>2 ^ 30 + 1\<close> zeros and the target 1, the bounds meet at the last index \<open>2 ^ 30\<close>, and
  the sum low + high = \<open>2 ^ 31\<close> is outside \<^verbatim>\<open>int\<close>. The search ends in undefined
  behaviour and reports nothing.
\<close>

theorem unit_d_long_array_counterexample:
  "sorted (replicate 1073741825 (0::int)) \<and> (1::int) \<notin> set (replicate 1073741825 0)
   \<and> search_loop (unit_d_init (replicate 1073741825 0) 1 0) = Inl Signed_Overflow
   \<and> vPeriodicTask4 \<lparr>tskIDLE_PRIORITY = 0, configMINIMAL_STACK_SIZE = 64, portTICK_PERIOD_MS = 1\<rparr>
        (unit_d_init (replicate 1073741825 0) 1 0) = Inl Signed_Overflow"
proof -
  have "search_loop (unit_d_init (replicate 1073741825 0) 1 0) = Inl Signed_Overflow"
    by (simp add: search_loop_def search_run.simps unit_d_init_def midpoint_def probe_def
      int_result_def subscript_def INT_MAX_def INT_MIN_def signed_divide_int_def)
  then show ?thesis
    by (simp add: vPeriodicTask4_def sorted_replicate)
qed

text \<open>
  C8, amended. For a sorted array of at most \<open>2 ^ 30\<close> elements and an arbitrary target,
  the search ends without a fault, sets \<^verbatim>\<open>found\<close> exactly when the target is in the
  array, and the task prints accordingly; when the target is absent the loop is left with
  low above high.
\<close>

theorem unit_d_generalised:
  assumes "sorted xs" and "length xs \<le> 2 ^ 30" and "portTICK_PERIOD_MS cfg \<noteq> 0"
  shows "\<exists>s'. search_loop (unit_d_init xs target mid0) = Inr s'
           \<and> (found s' \<noteq> 0 \<longleftrightarrow> target \<in> set xs)
           \<and> (target \<notin> set xs \<longrightarrow> high s' < low s')
           \<and> vPeriodicTask4 cfg (unit_d_init xs target mid0) =
               Inr ([if target \<in> set xs then Printf ''Element found\<newline>'' []
                     else Printf ''Element not found\<newline>'' [],
                     VTaskDelay (166 div portTICK_PERIOD_MS cfg)], s')"
proof -
  let ?s = "unit_d_init xs target mid0"
  have pre: "sorted (list_arr ?s)" "0 \<le> low ?s" "high ?s < int (length (list_arr ?s))"
    "int (length (list_arr ?s)) \<le> 2 ^ 30"
    using assms(1,2) by (simp_all add: unit_d_init_def)
  from search_run_correct [OF pre] obtain s' where r: "snd (search_run ?s) = Inr s'"
    and c: "if \<exists>i. low ?s \<le> i \<and> i \<le> high ?s \<and> list_arr ?s ! nat i = element_to_find ?s
            then found s' = 1 \<and> low s' \<le> high s'
            else found s' = found ?s \<and> high s' < low s'"
    by blast
  have "(\<exists>i. low ?s \<le> i \<and> i \<le> high ?s \<and> list_arr ?s ! nat i = element_to_find ?s)
          \<longleftrightarrow> target \<in> set xs"
    using present_iff_member [of xs target] by (simp add: unit_d_init_def)
  with c have d: "if target \<in> set xs then found s' = 1 \<and> low s' \<le> high s'
            else found s' = found ?s \<and> high s' < low s'"
    by simp
  have f0: "found ?s = 0" by (simp add: unit_d_init_def)
  from r have l: "search_loop ?s = Inr s'" by (simp add: search_loop_def)
  from d f0 have e: "found s' \<noteq> 0 \<longleftrightarrow> target \<in> set xs" "target \<notin> set xs \<longrightarrow> high s' < low s'"
    by (auto split: if_splits)
  from l e assms(3) have "vPeriodicTask4 cfg ?s =
               Inr ([if target \<in> set xs then Printf ''Element found\<newline>'' []
                     else Printf ''Element not found\<newline>'' [],
                     VTaskDelay (166 div portTICK_PERIOD_MS cfg)], s')"
    by (simp add: vPeriodicTask4_def TASK4_PERIOD_MS_def ms_to_ticks_def)
  with l e show ?thesis by blast
qed

text \<open>C8, witness: the array 1, 3, 5 searched for 4, which is absent, and for 3.\<close>

theorem unit_d_generalised_witness:
  "sorted [1, 3, 5 :: int] \<and> length [1, 3, 5 :: int] \<le> 2 ^ 30
   \<and> portTICK_PERIOD_MS \<lparr>tskIDLE_PRIORITY = 0, configMINIMAL_STACK_SIZE = 64, portTICK_PERIOD_MS = 1\<rparr> \<noteq> 0
   \<and> (4::int) \<notin> set [1, 3, 5]
   \<and> vPeriodicTask4 \<lparr>tskIDLE_PRIORITY = 0, configMINIMAL_STACK_SIZE = 64, portTICK_PERIOD_MS = 1\<rparr>
        (unit_d_init [1, 3, 5] 4 0) =
       Inr ([Printf ''Element not found\<newline>'' [], VTaskDelay 166],
            \<lparr>list_arr = [1, 3, 5], element_to_find = 4, low = 2, high = 1, mid = 2, found = 0\<rparr>)
   \<and> (3::int) \<in> set [1, 3, 5]
   \<and> vPeriodicTask4 \<lparr>tskIDLE_PRIORITY = 0, configMINIMAL_STACK_SIZE = 64, portTICK_PERIOD_MS = 1\<rparr>
        (unit_d_init [1, 3, 5] 3 0) =
       Inr ([Printf ''Element found\<newline>'' [], VTaskDelay 166],
            \<lparr>list_arr = [1, 3, 5], element_to_find = 3, low = 0, high = 2, mid = 1, found = 1\<rparr>)"
proof -
  let ?cfg = "\<lparr>tskIDLE_PRIORITY = 0, configMINIMAL_STACK_SIZE = 64, portTICK_PERIOD_MS = 1\<rparr>"
  have h: "sorted [1, 3, 5 :: int]" "length [1, 3, 5 :: int] \<le> 2 ^ 30" "portTICK_PERIOD_MS ?cfg \<noteq> 0"
    by simp_all
  have a: "search_loop (unit_d_init [1, 3, 5] 4 0) =
      Inr \<lparr>list_arr = [1, 3, 5], element_to_find = 4, low = 2, high = 1, mid = 2, found = 0\<rparr>"
    by (simp add: search_loop_def search_run.simps unit_d_init_def midpoint_def probe_def
        int_result_def subscript_def INT_MAX_def INT_MIN_def signed_divide_int_def)
  have b: "search_loop (unit_d_init [1, 3, 5] 3 0) =
      Inr \<lparr>list_arr = [1, 3, 5], element_to_find = 3, low = 0, high = 2, mid = 1, found = 1\<rparr>"
    by (simp add: search_loop_def search_run.simps unit_d_init_def midpoint_def probe_def
        int_result_def subscript_def INT_MAX_def INT_MIN_def signed_divide_int_def)
  from unit_d_generalised [OF h, of 4 0] a
  have "vPeriodicTask4 ?cfg (unit_d_init [1, 3, 5] 4 0) =
       Inr ([Printf ''Element not found\<newline>'' [], VTaskDelay 166],
            \<lparr>list_arr = [1, 3, 5], element_to_find = 4, low = 2, high = 1, mid = 2, found = 0\<rparr>)"
    by auto
  moreover from unit_d_generalised [OF h, of 3 0] b
  have "vPeriodicTask4 ?cfg (unit_d_init [1, 3, 5] 3 0) =
       Inr ([Printf ''Element found\<newline>'' [], VTaskDelay 166],
            \<lparr>list_arr = [1, 3, 5], element_to_find = 3, low = 0, high = 2, mid = 1, found = 1\<rparr>)"
    by auto
  ultimately show ?thesis using h by simp
qed

section \<open>The wrappers\<close>

text \<open>
  C4, as stated: the local variables of every periodic task have the same values at the
  start of every iteration as at the start of the first. Not so for \<^verbatim>\<open>found\<close>: it is 0
  at the start of the first iteration of \<^verbatim>\<open>vPeriodicTask4\<close> and 1 at the start of the
  second.
\<close>

theorem found_changes_counterexample:
  "iterations
     (vPeriodicTask4 \<lparr>tskIDLE_PRIORITY = 0, configMINIMAL_STACK_SIZE = 64, portTICK_PERIOD_MS = 1\<rparr>)
     1 (task4_init 0)
     = Inr ([[Printf ''Element found\<newline>'' [], VTaskDelay 166]],
            (task4_init 0)\<lparr>mid := 24, found := 1\<rparr>)
   \<and> found (task4_init 0) = 0
   \<and> found ((task4_init 0)\<lparr>mid := 24, found := 1\<rparr>) = 1
   \<and> task4_init 0 \<noteq> (task4_init 0)\<lparr>mid := 24, found := 1\<rparr>"
proof -
  have ne: "portTICK_PERIOD_MS \<lparr>tskIDLE_PRIORITY = 0, configMINIMAL_STACK_SIZE = 64,
    portTICK_PERIOD_MS = 1\<rparr> \<noteq> 0" by simp
  have f0: "found (task4_init 0) = 0" by (simp add: task4_init_def)
  have "task4_init 0 \<noteq> (task4_init 0)\<lparr>mid := 24, found := 1\<rparr>"
  proof
    assume "task4_init 0 = (task4_init 0)\<lparr>mid := 24, found := 1\<rparr>"
    then have "found (task4_init 0) = found ((task4_init 0)\<lparr>mid := 24, found := 1\<rparr>)"
      by (rule arg_cong)
    with f0 show False by simp
  qed
  with f0 show ?thesis
    using iterations_task4 [OF ne, of 1 0] by simp
qed

text \<open>
  C4, amended. The array, the target, the bounds low and high, the two factors and the
  Fahrenheit value are the same at the start of every iteration. The variables
  \<^verbatim>\<open>found\<close>, \<^verbatim>\<open>mid\<close> and \<^verbatim>\<open>result\<close> are assigned in the first iteration (\<^verbatim>\<open>found\<close>
  becomes 1, \<^verbatim>\<open>mid\<close> becomes 24, \<^verbatim>\<open>result\<close> the product as the code computes it) and
  have these values at the start of every later iteration.
\<close>

theorem locals_steady_after_first_iteration:
  assumes "portTICK_PERIOD_MS cfg \<noteq> 0"
  shows "\<exists>css1 css2 css3 css4 s3 s4.
           iterations (vPeriodicTask1 cfg) n () = Inr (css1, ())
         \<and> iterations (vPeriodicTask2 cfg) n task2_init = Inr (css2, task2_init)
         \<and> iterations (vPeriodicTask3 cfg) n task3_init = Inr (css3, s3)
         \<and> num1 s3 = num1 task3_init \<and> num2 s3 = num2 task3_init
         \<and> (0 < n \<longrightarrow> s3 = task3_init\<lparr>result := num1 task3_init * num2 task3_init\<rparr>)
         \<and> iterations (vPeriodicTask4 cfg) n (task4_init mid0) = Inr (css4, s4)
         \<and> list_arr s4 = list_arr (task4_init mid0)
         \<and> element_to_find s4 = element_to_find (task4_init mid0)
         \<and> low s4 = low (task4_init mid0) \<and> high s4 = high (task4_init mid0)
         \<and> (0 < n \<longrightarrow> s4 = (task4_init mid0)\<lparr>mid := 24, found := 1\<rparr>)"
  unfolding iterations_task1 [OF assms] iterations_task2 [OF assms] iterations_task3 [OF assms]
    iterations_task4 [OF assms]
  by simp

text \<open>C4, witness: the variables after three iterations.\<close>

theorem locals_steady_after_first_iteration_witness:
  "portTICK_PERIOD_MS \<lparr>tskIDLE_PRIORITY = 0, configMINIMAL_STACK_SIZE = 64, portTICK_PERIOD_MS = 1\<rparr> \<noteq> 0
   \<and> (0::nat) < 3
   \<and> (\<exists>css. iterations
        (vPeriodicTask4 \<lparr>tskIDLE_PRIORITY = 0, configMINIMAL_STACK_SIZE = 64, portTICK_PERIOD_MS = 1\<rparr>)
        3 (task4_init 7) = Inr (css, (task4_init 7)\<lparr>mid := 24, found := 1\<rparr>))
   \<and> (\<exists>css. iterations
        (vPeriodicTask3 \<lparr>tskIDLE_PRIORITY = 0, configMINIMAL_STACK_SIZE = 64, portTICK_PERIOD_MS = 1\<rparr>)
        3 task3_init = Inr (css, task3_init\<lparr>result := num1 task3_init * num2 task3_init\<rparr>))"
proof -
  have ne: "portTICK_PERIOD_MS \<lparr>tskIDLE_PRIORITY = 0, configMINIMAL_STACK_SIZE = 64,
    portTICK_PERIOD_MS = 1\<rparr> \<noteq> 0" by simp
  from locals_steady_after_first_iteration [OF ne, of 3 7] ne show ?thesis
    by auto
qed

text \<open>
  C7. Each of the four periodic tasks runs its first \<open>n\<close> iterations, for every \<open>n\<close>,
  without a fault; each iteration is the work followed by exactly one \<^verbatim>\<open>vTaskDelay\<close>,
  the relative delay, of the task's period; and so, however long the work runs and
  however late the task is woken, two consecutive release instants lie at least the
  period plus the execution time of the earlier iteration apart.
\<close>

theorem periodic_wrappers_delay_relative:
  assumes "portTICK_PERIOD_MS cfg \<noteq> 0"
  shows "periodic_wrapper (vPeriodicTask1 cfg) () (TASK1_PERIOD_MS cfg) n pc t0
       \<and> periodic_wrapper (vPeriodicTask2 cfg) task2_init (TASK2_PERIOD_MS cfg) n pc t0
       \<and> periodic_wrapper (vPeriodicTask3 cfg) task3_init (TASK3_PERIOD_MS cfg) n pc t0
       \<and> periodic_wrapper (vPeriodicTask4 cfg) (task4_init mid0) (TASK4_PERIOD_MS cfg) n pc t0"
proof -
  have "periodic_wrapper (vPeriodicTask1 cfg) () (TASK1_PERIOD_MS cfg) n pc t0"
    using assms
    by (intro periodic_wrapper_replicate [OF _ iterations_task1])
      (simp_all add: TASK1_PERIOD_MS_def ms_to_ticks_def)
  moreover have "periodic_wrapper (vPeriodicTask2 cfg) task2_init (TASK2_PERIOD_MS cfg) n pc t0"
    using assms
    by (intro periodic_wrapper_replicate [OF _ iterations_task2])
      (simp_all add: TASK2_PERIOD_MS_def ms_to_ticks_def)
  moreover have "periodic_wrapper (vPeriodicTask3 cfg) task3_init (TASK3_PERIOD_MS cfg) n pc t0"
    using assms
    by (intro periodic_wrapper_replicate [OF _ iterations_task3])
      (simp_all add: TASK3_PERIOD_MS_def ms_to_ticks_def)
  moreover have "periodic_wrapper (vPeriodicTask4 cfg) (task4_init mid0) (TASK4_PERIOD_MS cfg) n pc t0"
    using assms
    by (intro periodic_wrapper_replicate [OF _ iterations_task4])
      (simp_all add: TASK4_PERIOD_MS_def ms_to_ticks_def)
  ultimately show ?thesis by simp
qed

text \<open>
  C7, witness: three iterations of \<^verbatim>\<open>vPeriodicTask1\<close> with two ticks of execution before
  each call and one tick of lag at each wake-up are released at ticks 0, 171 and 342.
\<close>

theorem periodic_wrappers_delay_relative_witness:
  "portTICK_PERIOD_MS \<lparr>tskIDLE_PRIORITY = 0, configMINIMAL_STACK_SIZE = 64, portTICK_PERIOD_MS = 1\<rparr> \<noteq> 0
   \<and> periodic_wrapper
        (vPeriodicTask1 \<lparr>tskIDLE_PRIORITY = 0, configMINIMAL_STACK_SIZE = 64, portTICK_PERIOD_MS = 1\<rparr>) ()
        (Inr 166) 3 \<lparr>run_ticks = (\<lambda>k. 2), wake_lag = (\<lambda>k. 1)\<rparr> 0
   \<and> timeline \<lparr>run_ticks = (\<lambda>k. 2), wake_lag = (\<lambda>k. 1)\<rparr> 0 0
        (replicate 3 [Printf ''Working 1\<newline>'' [], VTaskDelay 166])
       = [(0, 4), (171, 4), (342, 4)]"
  using periodic_wrappers_delay_relative
    [of "\<lparr>tskIDLE_PRIORITY = 0, configMINIMAL_STACK_SIZE = 64, portTICK_PERIOD_MS = 1\<rparr>"
        3 "\<lparr>run_ticks = (\<lambda>k. 2), wake_lag = (\<lambda>k. 1)\<rparr>" 0]
  by (simp add: TASK1_PERIOD_MS_def ms_to_ticks_def numeral_3_eq_3 upt_rec)

text \<open>
  C9. \<^verbatim>\<open>ipsa_sched\<close> creates the queue once, with length 2 and items of
  \<^verbatim>\<open>sizeof(uint32_t)\<close> = 4 bytes, and stores the handle; once the queue exists it requests
  the five tasks in the order of strictly increasing priority. Neither the registrar nor
  any iteration of any of the five tasks sends to a queue or receives from one.
\<close>

theorem queue_created_and_left_alone:
  assumes "portTICK_PERIOD_MS cfg \<noteq> 0"
  shows "filter queue_creation (trace (ipsa_sched cfg r)) = [XQueueCreate 2 4]
       \<and> \<not> list_ex queue_access (trace (ipsa_sched cfg r))
       \<and> xQueue (ipsa_sched cfg r) = (if queue_fits r then Some (2, 4) else None)
       \<and> (queue_fits r \<longrightarrow>
            map pxTaskCode (create_requests (trace (ipsa_sched cfg r))) =
              [VPeriodicTask1, VPeriodicTask2, VPeriodicTask3, VPeriodicTask4, AperiodicTask1]
            \<and> sorted_wrt (<) (map uxPriority (create_requests (trace (ipsa_sched cfg r)))))
       \<and> leaves_queue_alone (vPeriodicTask1 cfg) () n
       \<and> leaves_queue_alone (vPeriodicTask2 cfg) task2_init n
       \<and> leaves_queue_alone (vPeriodicTask3 cfg) task3_init n
       \<and> leaves_queue_alone (vPeriodicTask4 cfg) (task4_init mid0) n
       \<and> leaves_queue_alone (aperiodicTask1 cfg) () n"
proof -
  have "leaves_queue_alone (vPeriodicTask1 cfg) () n"
    by (rule leaves_queue_alone_replicate [OF iterations_task1 [OF assms]]) simp
  moreover have "leaves_queue_alone (vPeriodicTask2 cfg) task2_init n"
    by (rule leaves_queue_alone_replicate [OF iterations_task2 [OF assms]]) simp
  moreover have "leaves_queue_alone (vPeriodicTask3 cfg) task3_init n"
    by (rule leaves_queue_alone_replicate [OF iterations_task3 [OF assms]]) simp
  moreover have "leaves_queue_alone (vPeriodicTask4 cfg) (task4_init mid0) n"
    by (rule leaves_queue_alone_replicate [OF iterations_task4 [OF assms]]) simp
  moreover have "leaves_queue_alone (aperiodicTask1 cfg) () n"
    by (rule leaves_queue_alone_replicate [OF iterations_aperiodic [OF assms]]) simp
  moreover have "filter queue_creation (trace (ipsa_sched cfg r)) = [XQueueCreate 2 4]"
    "\<not> list_ex queue_access (trace (ipsa_sched cfg r))"
    by (simp_all add: trace_ipsa_sched)
  moreover have "queue_fits r \<Longrightarrow>
            map pxTaskCode (create_requests (trace (ipsa_sched cfg r))) =
              [VPeriodicTask1, VPeriodicTask2, VPeriodicTask3, VPeriodicTask4, AperiodicTask1]
            \<and> sorted_wrt (<) (map uxPriority (create_requests (trace (ipsa_sched cfg r))))"
    by (simp add: trace_ipsa_sched)
  ultimately show ?thesis
    by (simp add: xQueue_ipsa_sched)
qed

text \<open>C9, witness: one tick per millisecond, idle priority 0, memory for everything.\<close>

theorem queue_created_and_left_alone_witness:
  "portTICK_PERIOD_MS \<lparr>tskIDLE_PRIORITY = 0, configMINIMAL_STACK_SIZE = 64, portTICK_PERIOD_MS = 1\<rparr> \<noteq> 0
   \<and> queue_fits \<lparr>queue_fits = True, task_fits = (\<lambda>c. True), scheduler_fits = True\<rparr>
   \<and> xQueue (ipsa_sched
        \<lparr>tskIDLE_PRIORITY = 0, configMINIMAL_STACK_SIZE = 64, portTICK_PERIOD_MS = 1\<rparr>
        \<lparr>queue_fits = True, task_fits = (\<lambda>c. True), scheduler_fits = True\<rparr>) = Some (2, 4)
   \<and> map uxPriority (create_requests (trace (ipsa_sched
        \<lparr>tskIDLE_PRIORITY = 0, configMINIMAL_STACK_SIZE = 64, portTICK_PERIOD_MS = 1\<rparr>
        \<lparr>queue_fits = True, task_fits = (\<lambda>c. True), scheduler_fits = True\<rparr>))) = [1, 2, 3, 4, 5]
   \<and> leaves_queue_alone
        (vPeriodicTask4 \<lparr>tskIDLE_PRIORITY = 0, configMINIMAL_STACK_SIZE = 64, portTICK_PERIOD_MS = 1\<rparr>)
        (task4_init 0) 2"
  using queue_created_and_left_alone
    [of "\<lparr>tskIDLE_PRIORITY = 0, configMINIMAL_STACK_SIZE = 64, portTICK_PERIOD_MS = 1\<rparr>"
        "\<lparr>queue_fits = True, task_fits = (\<lambda>c. True), scheduler_fits = True\<rparr>" 2 0]
  by (simp add: trace_ipsa_sched)

end
